theory Spec2Isabelle
  imports Complex_Main
begin

section \<open>Python text\<close>

text \<open>
  A Python \<^verbatim>\<open>str\<close> is a sequence of Unicode code points; a code point is a natural
  number.  \<open>py\<close> embeds an ASCII literal.
\<close>

type_synonym pystr = "nat list"

definition py :: "string \<Rightarrow> pystr" where
  "py s = map of_char s"

text \<open>
  \<^verbatim>\<open>str.isspace\<close> of one code point.  \<^verbatim>\<open>str.strip()\<close>, \<^verbatim>\<open>str.split()\<close> and the
  class \<^verbatim>\<open>\s\<close> of \<^verbatim>\<open>re\<close> on \<^verbatim>\<open>str\<close> patterns all use this set:
  U+0009..U+000D, U+001C..U+0020, U+0085, U+00A0, U+1680, U+2000..U+200A, U+2028,
  U+2029, U+202F, U+205F, U+3000.
\<close>

definition py_isspace :: "nat \<Rightarrow> bool" where
  "py_isspace c \<longleftrightarrow>
     (9 \<le> c \<and> c \<le> 13) \<or> (28 \<le> c \<and> c \<le> 32) \<or> c = 133 \<or> c = 160 \<or> c = 5760 \<or>
     (8192 \<le> c \<and> c \<le> 8202) \<or> c = 8232 \<or> c = 8233 \<or> c = 8239 \<or> c = 8287 \<or>
     c = 12288"

definition py_strip :: "pystr \<Rightarrow> pystr" where
  "py_strip s = rev (dropWhile py_isspace (rev (dropWhile py_isspace s)))"

text \<open>
  The character tables of code points from U+0100 on are not part of the repository
  (they belong to the Python runtime), so they are a parameter: \<open>isalnum_ext\<close> is
  \<^verbatim>\<open>str.isalnum\<close> of one such code point, \<open>lower_ext\<close> is \<^verbatim>\<open>str.lower\<close> of a
  string that holds one.  Below U+0100 both are written out.  No whitespace character is
  alphanumeric, whatever the table says.
\<close>

record unicode_tables =
  isalnum_ext :: "nat \<Rightarrow> bool"
  lower_ext :: "pystr \<Rightarrow> pystr"

definition latin1_isalnum :: "nat \<Rightarrow> bool" where
  "latin1_isalnum c \<longleftrightarrow>
     (48 \<le> c \<and> c \<le> 57) \<or> (65 \<le> c \<and> c \<le> 90) \<or> (97 \<le> c \<and> c \<le> 122) \<or>
     c = 170 \<or> c = 178 \<or> c = 179 \<or> c = 181 \<or> c = 185 \<or> c = 186 \<or>
     (188 \<le> c \<and> c \<le> 190) \<or> (192 \<le> c \<and> c \<le> 214) \<or> (216 \<le> c \<and> c \<le> 246) \<or>
     (248 \<le> c \<and> c \<le> 255)"

definition py_isalnum :: "unicode_tables \<Rightarrow> nat \<Rightarrow> bool" where
  "py_isalnum U c =
     (if c < 256 then latin1_isalnum c else isalnum_ext U c \<and> \<not> py_isspace c)"

text \<open>The class \<^verbatim>\<open>\w\<close> of \<^verbatim>\<open>re\<close>: alphanumeric, or the underscore (U+005F).\<close>

definition re_word :: "unicode_tables \<Rightarrow> nat \<Rightarrow> bool" where
  "re_word U c \<longleftrightarrow> py_isalnum U c \<or> c = 95"

definition latin1_lower :: "nat \<Rightarrow> nat" where
  "latin1_lower c =
     (if (65 \<le> c \<and> c \<le> 90) \<or> (192 \<le> c \<and> c \<le> 222 \<and> c \<noteq> 215) then c + 32 else c)"

definition py_lower :: "unicode_tables \<Rightarrow> pystr \<Rightarrow> pystr" where
  "py_lower U s = (if list_all (\<lambda>c. c < 256) s then map latin1_lower s else lower_ext U s)"

text \<open>
  A value handed to a function that expects text: \<^verbatim>\<open>None\<close>, a \<^verbatim>\<open>str\<close>, or any other
  object (a number, pandas' NaN for an empty cell), which carries the text that
  \<^verbatim>\<open>str()\<close> gives for it.
\<close>

datatype pyval = PyNone | PyStr pystr | PyOther pystr

fun py_str :: "pyval \<Rightarrow> pystr" where
  "py_str PyNone = py ''None''"
| "py_str (PyStr s) = s"
| "py_str (PyOther r) = r"

section \<open>dedupe\_ios\_csv.py\<close>

subsection \<open>normalize\_text\<close>

text \<open>\<^verbatim>\<open>re.sub(r"[^\w\s]", "", s)\<close>: every character outside both classes is deleted.\<close>

definition sub_nonword :: "unicode_tables \<Rightarrow> pystr \<Rightarrow> pystr" where
  "sub_nonword U s = filter (\<lambda>c. re_word U c \<or> py_isspace c) s"

text \<open>
  \<^verbatim>\<open>re.sub(r"\s+", " ", s)\<close>: every maximal run of whitespace becomes one space (U+0020).
  The flag says that the previous character belonged to a run already replaced.
\<close>

fun sub_ws_runs :: "bool \<Rightarrow> pystr \<Rightarrow> pystr" where
  "sub_ws_runs inrun [] = []"
| "sub_ws_runs inrun (c # cs) =
     (if py_isspace c then (if inrun then sub_ws_runs True cs else 32 # sub_ws_runs True cs)
      else c # sub_ws_runs False cs)"

definition normalize_text :: "unicode_tables \<Rightarrow> pyval \<Rightarrow> pystr" where
  "normalize_text U v =
     (case v of
        PyNone \<Rightarrow> []
      | _ \<Rightarrow> sub_ws_runs False (sub_nonword U (py_strip (py_lower U (py_str v)))))"

subsection \<open>main\<close>

text \<open>
  A pandas DataFrame as \<^verbatim>\<open>read_csv\<close> returns it: the column labels and the rows, each
  row holding one cell per column (pandas pads a short line with NaN, so a frame is
  rectangular).  \<open>cell\<close> is \<^verbatim>\<open>df[name]\<close> read at one row.
\<close>

record frame =
  columns :: "pystr list"
  rows :: "pyval list list"

definition cell :: "'l list \<Rightarrow> pyval list \<Rightarrow> 'l \<Rightarrow> pyval" where
  "cell cols r name =
     (case map_of (zip cols r) name of Some v \<Rightarrow> v | None \<Rightarrow> PyOther (py ''nan''))"

definition required :: "pystr list" where
  "required = [py ''Address'', py ''State'']"

definition dedupe_key_col :: pystr where
  "dedupe_key_col = py ''_dedupe_key''"

text \<open>
  \<^verbatim>\<open>df["Address"].apply(normalize_text) + "|" + df["State"].apply(normalize_text)\<close>,
  at one row.
\<close>

definition dedupe_key :: "unicode_tables \<Rightarrow> pystr list \<Rightarrow> pyval list \<Rightarrow> pystr" where
  "dedupe_key U cols r =
     normalize_text U (cell cols r (py ''Address'')) @ py ''|'' @
     normalize_text U (cell cols r (py ''State''))"

text \<open>
  \<^verbatim>\<open>drop_duplicates(subset=..., keep="first")\<close>: a row is dropped when its key has
  been seen in an earlier row.
\<close>

fun drop_duplicates :: "('r \<Rightarrow> 'k) \<Rightarrow> 'k list \<Rightarrow> 'r list \<Rightarrow> 'r list" where
  "drop_duplicates key seen [] = []"
| "drop_duplicates key seen (r # rs) =
     (if key r \<in> set seen then drop_duplicates key seen rs
      else r # drop_duplicates key (key r # seen) rs)"

text \<open>\<^verbatim>\<open>.drop(columns="_dedupe_key")\<close>, on the labels and on one row.\<close>

definition drop_label :: "pystr \<Rightarrow> pystr list \<Rightarrow> pystr list" where
  "drop_label name cols = filter (\<lambda>c. c \<noteq> name) cols"

definition drop_cell :: "pystr \<Rightarrow> pystr list \<Rightarrow> pyval list \<Rightarrow> pyval list" where
  "drop_cell name cols r = map snd (filter (\<lambda>(c, v). c \<noteq> name) (zip cols r))"

datatype error = FileNotFoundError | ValueError "pystr list" | IndexError

datatype line =
    Available_columns "pystr list"
  | Deduplication_complete
  | Rows_before int
  | Rows_after int
  | Removed int
  | File_updated

text \<open>
  What one run of the script leaves behind: the lines printed, the frame written over
  the input file by \<^verbatim>\<open>to_csv\<close> (\<open>None\<close>: the file is not written), and the
  exception that ended the run, if any.
\<close>

record run =
  printed :: "line list"
  written :: "frame option"
  raised :: "error option"

text \<open>
  \<open>main\<close> of dedupe\_ios\_csv.py.  The argument is \<open>None\<close> when the file does not
  exist, and otherwise the frame that \<^verbatim>\<open>load_with_real_header\<close> returns.
\<close>

definition dedupe_main :: "unicode_tables \<Rightarrow> frame option \<Rightarrow> run" where
  "dedupe_main U file =
     (case file of
        None \<Rightarrow> \<lparr>printed = [], written = None, raised = Some FileNotFoundError\<rparr>
      | Some loaded \<Rightarrow>
          (let cols = map py_strip (columns loaded);
               missing = filter (\<lambda>c. c \<notin> set cols) required
           in if missing \<noteq> [] then
                \<lparr>printed = [Available_columns cols], written = None,
                 raised = Some (ValueError missing)\<rparr>
              else
                (let n_before = int (length (rows loaded));
                     kept = drop_duplicates (dedupe_key U cols) [] (rows loaded);
                     n_after = int (length kept)
                 in \<lparr>printed = [Deduplication_complete, Rows_before n_before, Rows_after n_after,
                                Removed (n_before - n_after), File_updated],
                     written = Some \<lparr>columns = drop_label dedupe_key_col cols,
                                     rows = map (drop_cell dedupe_key_col cols) kept\<rparr>,
                     raised = None\<rparr>)))"

subsection \<open>Notions used to state the properties of the deduplication\<close>

text \<open>
  Character tables for runs on text below U+0100, which never consults them.
\<close>

definition no_ext_tables :: unicode_tables where
  "no_ext_tables = \<lparr>isalnum_ext = (\<lambda>c. False), lower_ext = (\<lambda>s. s)\<rparr>"

text \<open>Row \<open>i\<close> is the first row of \<open>rs\<close> with its key.\<close>

definition first_seen :: "('r \<Rightarrow> 'k) \<Rightarrow> 'r list \<Rightarrow> nat \<Rightarrow> bool" where
  "first_seen key rs i \<longleftrightarrow> (\<forall>j<i. key (rs ! j) \<noteq> key (rs ! i))"

text \<open>
  Punctuation other than the underscore: neither alphanumeric, nor whitespace, nor U+005F.
  Two texts are \<open>alike\<close> when they differ only in case and in such punctuation: they
  are equal once lower-cased and with that punctuation deleted.
\<close>

definition punctuation :: "unicode_tables \<Rightarrow> nat \<Rightarrow> bool" where
  "punctuation U c \<longleftrightarrow> \<not> py_isalnum U c \<and> \<not> py_isspace c \<and> c \<noteq> 95"

definition alike :: "unicode_tables \<Rightarrow> pystr \<Rightarrow> pystr \<Rightarrow> bool" where
  "alike U s t \<longleftrightarrow>
     filter (\<lambda>c. \<not> punctuation U c) (py_lower U s) =
     filter (\<lambda>c. \<not> punctuation U c) (py_lower U t)"

text \<open>
  A cell as \<^verbatim>\<open>read_csv(encoding="latin1")\<close> gives it when the field has no blank at
  either end: a \<^verbatim>\<open>str\<close> of code points below U+0100 that \<^verbatim>\<open>strip()\<close> leaves alone.
\<close>

fun plain_cell :: "pyval \<Rightarrow> bool" where
  "plain_cell (PyStr s) \<longleftrightarrow> list_all (\<lambda>c. c < 256) s \<and> py_strip s = s"
| "plain_cell _ \<longleftrightarrow> False"

definition alike_cells :: "unicode_tables \<Rightarrow> pyval \<Rightarrow> pyval \<Rightarrow> bool" where
  "alike_cells U v w \<longleftrightarrow> plain_cell v \<and> plain_cell w \<and> alike U (py_str v) (py_str w)"

definition alike_rows :: "unicode_tables \<Rightarrow> pystr list \<Rightarrow> pyval list \<Rightarrow> pyval list \<Rightarrow> bool" where
  "alike_rows U cols r r' \<longleftrightarrow>
     alike_cells U (cell cols r (py ''Address'')) (cell cols r' (py ''Address'')) \<and>
     alike_cells U (cell cols r (py ''State'')) (cell cols r' (py ''State''))"

text \<open>
  Frames used as concrete inputs below.  \<open>spec_rows\<close> is the example of the
  specification: the second address differs from the first in case and in a final
  exclamation mark.  In \<open>blank_led_rows\<close> the second address is the first with a hyphen
  put in front of its leading blank; in \<open>underscore_rows\<close> the second address is the
  first without its underscore.
\<close>

definition spec_rows :: frame where
  "spec_rows =
     \<lparr>columns = [py ''Tenant'', py ''Address'', py ''State''],
      rows = [[PyStr (py ''tenantA''), PyStr (py ''1 Main St''), PyStr (py ''FL'')],
              [PyStr (py ''tenantB''), PyStr (py ''1 main st!''), PyStr (py ''fl'')]]\<rparr>"

definition blank_led_rows :: frame where
  "blank_led_rows =
     \<lparr>columns = [py ''Tenant'', py ''Address'', py ''State''],
      rows = [[PyStr (py ''tenantA''), PyStr (py '' 1 Main St''), PyStr (py ''FL'')],
              [PyStr (py ''tenantB''), PyStr (py ''- 1 Main St''), PyStr (py ''FL'')]]\<rparr>"

definition underscore_rows :: frame where
  "underscore_rows =
     \<lparr>columns = [py ''Tenant'', py ''Address'', py ''State''],
      rows = [[PyStr (py ''tenantA''), PyStr (py ''1 Main_St''), PyStr (py ''FL'')],
              [PyStr (py ''tenantB''), PyStr (py ''1 MainSt''), PyStr (py ''FL'')]]\<rparr>"

definition no_state_column :: frame where
  "no_state_column =
     \<lparr>columns = [py ''Tenant'', py '' Address ''],
      rows = [[PyStr (py ''tenantA''), PyStr (py ''1 Main St'')]]\<rparr>"

section \<open>excel-to-map.py: geocode\_addresses\<close>

text \<open>
  A row of the frame that \<^verbatim>\<open>load_and_clean\<close> returns, and the same row with the two
  columns that \<^verbatim>\<open>geocode_addresses\<close> adds.  A coordinate is a float or \<^verbatim>\<open>None\<close>;
  pandas counts \<^verbatim>\<open>None\<close> as missing (\<^verbatim>\<open>isna\<close>), and the floats that reach these
  columns (a provider's latitude and longitude, a seeded cache entry that
  \<^verbatim>\<open>dropna\<close> let through) are numbers.
\<close>

record tenant_row =
  Tenant :: pystr
  Location :: pystr
  Address :: pystr
  City :: pystr
  State :: pystr
  clean_address :: pystr
  full_address :: pystr

type_synonym coord = "real option"

record located_row = tenant_row +
  lat :: coord
  lon :: coord

type_synonym coords = "coord \<times> coord"

text \<open>
  What a call \<^verbatim>\<open>geocode(addr)\<close> of the rate-limited provider can do: return a
  location, return \<^verbatim>\<open>None\<close>, or raise.  The exceptions are those below
  \<^verbatim>\<open>Exception\<close>: the three that the first \<^verbatim>\<open>except\<close> clause names, another
  \<^verbatim>\<open>GeocoderServiceError\<close>, and any other.
\<close>

datatype exn =
    GeocoderUnavailable
  | GeocoderTimedOut
  | ConnectionError
  | Other_service_error
  | Other_exception

datatype response = Found real real | No_match | Raises exn

text \<open>
  The callable \<^verbatim>\<open>geocode\<close> is a parameter of the model: a function of the query and
  of the state \<open>'w\<close> of everything outside the program (the provider, the clock).
\<close>

type_synonym 'w geocoder = "pystr \<Rightarrow> 'w \<Rightarrow> response \<times> 'w"

datatype message =
    Geocode_error pystr exn
  | Unexpected_geocode_error pystr exn
  | Geocoding_addresses
  | Progress nat nat pystr coords
  | Geocoding_complete nat nat
  | Rows_failed nat

text \<open>
  The state that \<^verbatim>\<open>geocode_one\<close> closes over and changes: the dictionary \<open>cache\<close>,
  the outside world, and the console.  \<open>sent\<close> is not in the source: it lists the
  queries handed to \<^verbatim>\<open>geocode\<close>, oldest first, so that "no provider call" can be said.
\<close>

record 'w session =
  cache :: "pystr \<rightharpoonup> coords"
  world :: 'w
  sent :: "pystr list"
  console :: "message list"

text \<open>
  \<^verbatim>\<open>geocode_one\<close>.  The argument is \<^verbatim>\<open>None\<close> or a \<^verbatim>\<open>str\<close>; \<^verbatim>\<open>addr or ""\<close>
  turns \<^verbatim>\<open>None\<close> into the empty string.  A \<^verbatim>\<open>Location\<close> object is always true
  (its length is 3), so \<^verbatim>\<open>if loc\<close> tests for \<^verbatim>\<open>None\<close>.
\<close>

definition handled :: "pystr \<Rightarrow> response \<Rightarrow> coords \<times> message list" where
  "handled addr resp =
     (case resp of
        Found la lo \<Rightarrow> ((Some la, Some lo), [])
      | No_match \<Rightarrow> ((None, None), [])
      | Raises e \<Rightarrow>
          if e = GeocoderUnavailable \<or> e = GeocoderTimedOut \<or> e = ConnectionError
          then ((None, None), [Geocode_error addr e])
          else ((None, None), [Unexpected_geocode_error addr e]))"

definition geocode_one :: "'w geocoder \<Rightarrow> pystr option \<Rightarrow> 'w session \<Rightarrow> coords \<times> 'w session" where
  "geocode_one geocode addr0 s =
     (let addr = py_strip (case addr0 of None \<Rightarrow> [] | Some a \<Rightarrow> a)
      in if addr = [] then ((None, None), s)
         else
           (case cache s addr of
              Some r \<Rightarrow> (r, s)
            | None \<Rightarrow>
                (let (resp, w) = geocode addr (world s);
                     (result, msgs) = handled addr resp
                 in (result,
                     s\<lparr>cache := (cache s)(addr \<mapsto> result),
                       world := w,
                       sent := sent s @ [addr],
                       console := console s @ msgs\<rparr>))))"

text \<open>
  The loop over \<^verbatim>\<open>enumerate(df["full_address"], start=1)\<close>: \<open>i\<close> is the index of
  the first remaining row.  It returns the list of coordinate pairs, which the source
  keeps as the two lists \<^verbatim>\<open>lats\<close> and \<^verbatim>\<open>lons\<close>.
\<close>

fun geocode_loop ::
  "'w geocoder \<Rightarrow> nat \<Rightarrow> nat \<Rightarrow> tenant_row list \<Rightarrow> 'w session \<Rightarrow> coords list \<times> 'w session"
where
  "geocode_loop geocode n_total i [] s = ([], s)"
| "geocode_loop geocode n_total i (r # rs) s =
     (let (c, s1) = geocode_one geocode (Some (full_address r)) s;
          s2 = (if i = 1 \<or> i = n_total \<or> i mod 10 = 0
                then s1\<lparr>console := console s1 @ [Progress i n_total (full_address r) c]\<rparr>
                else s1);
          (cs, s3) = geocode_loop geocode n_total (i + 1) rs s2
      in (c # cs, s3))"

definition with_coords :: "tenant_row \<Rightarrow> coords \<Rightarrow> located_row" where
  "with_coords r c = tenant_row.extend r \<lparr>lat = fst c, lon = snd c\<rparr>"

text \<open>
  The frame after \<^verbatim>\<open>df["lat"] = lats\<close> and \<^verbatim>\<open>df["lon"] = lons\<close>, with the session
  as the loop leaves it.  \<^verbatim>\<open>existing_cache\<close> is \<^verbatim>\<open>None\<close> or a dictionary; an empty
  one is false and adds nothing either way.
\<close>

definition located ::
  "'w geocoder \<Rightarrow> tenant_row list \<Rightarrow> (pystr \<rightharpoonup> coords) option \<Rightarrow> 'w
     \<Rightarrow> located_row list \<times> 'w session"
where
  "located geocode df existing_cache w =
     (let start = \<lparr>cache = (case existing_cache of None \<Rightarrow> Map.empty
                                | Some seed \<Rightarrow> Map.empty ++ seed),
                   world = w, sent = [], console = [Geocoding_addresses]\<rparr>;
          (cs, s) = geocode_loop geocode (length df) 1 df start
      in (map2 with_coords df cs, s))"

text \<open>
  What \<^verbatim>\<open>geocode_addresses\<close> leaves behind: the frame it returns, the frame it writes
  to \<^verbatim>\<open>geocode_failures.csv\<close> (\<open>None\<close>: \<^verbatim>\<open>to_csv\<close> is not called), and the session.
\<close>

record 'w geocoded =
  returned :: "located_row list"
  failures_file :: "located_row list option"
  final :: "'w session"

definition isna :: "coord \<Rightarrow> bool" where
  "isna c \<longleftrightarrow> c = None"

definition geocode_addresses ::
  "'w geocoder \<Rightarrow> tenant_row list \<Rightarrow> (pystr \<rightharpoonup> coords) option \<Rightarrow> 'w \<Rightarrow> 'w geocoded"
where
  "geocode_addresses geocode df0 existing_cache w =
     (let (df, s) = located geocode df0 existing_cache w;
          df_failed = filter (\<lambda>r. isna (lat r) \<or> isna (lon r)) df;
          n_before = length df;
          kept = filter (\<lambda>r. \<not> isna (lat r) \<and> \<not> isna (lon r)) df;
          n_after = length kept;
          s1 = s\<lparr>console := console s @ [Geocoding_complete n_after n_before]\<rparr>
      in if df_failed \<noteq> []
         then \<lparr>returned = kept, failures_file = Some df_failed,
               final = s1\<lparr>console := console s1 @ [Rows_failed (length df_failed)]\<rparr>\<rparr>
         else \<lparr>returned = kept, failures_file = None, final = s1\<rparr>)"

text \<open>
  Concrete inputs used below: a provider stub that answers every query with one
  coordinate pair and counts its calls in the world, one that finds nothing, one that
  always times out, one that knows a single address, and the two rows of the specification's end-to-end scenario after
  \<^verbatim>\<open>load_and_clean\<close> together with a row whose address fields are empty.
\<close>

definition stub_found :: "nat geocoder" where
  "stub_found q n = (Found 28 (- 82), n + 1)"

definition stub_no_match :: "nat geocoder" where
  "stub_no_match q n = (No_match, n + 1)"

definition stub_timed_out :: "nat geocoder" where
  "stub_timed_out q n = (Raises GeocoderTimedOut, n + 1)"

definition row_suite :: tenant_row where
  "row_suite =
     \<lparr>Tenant = py ''A'', Location = py ''L1'', Address = py ''1 Main St, Suite 5'',
      City = py ''Tampa'', State = py ''FL'', clean_address = py ''1 Main St'',
      full_address = py ''1 Main St, Tampa, FL, USA''\<rparr>"

definition row_plain :: tenant_row where
  "row_plain =
     \<lparr>Tenant = py ''A'', Location = py ''L2'', Address = py ''1 Main St'',
      City = py ''Tampa'', State = py ''FL'', clean_address = py ''1 Main St'',
      full_address = py ''1 Main St, Tampa, FL, USA''\<rparr>"

definition row_unknown :: tenant_row where
  "row_unknown =
     \<lparr>Tenant = py ''B'', Location = py ''L3'', Address = py ''9 Nowhere Rd'',
      City = py ''Tampa'', State = py ''FL'', clean_address = py ''9 Nowhere Rd'',
      full_address = py ''9 Nowhere Rd, Tampa, FL, USA''\<rparr>"

definition stub_main_st :: "nat geocoder" where
  "stub_main_st q n =
     (if q = py ''1 Main St, Tampa, FL, USA'' then (Found 28 (- 82), n + 1)
      else (No_match, n + 1))"

definition fresh :: "nat session" where
  "fresh = \<lparr>cache = Map.empty, world = 0, sent = [], console = []\<rparr>"

section \<open>excel-to-map.py: the rate-limited provider\<close>

text \<open>
  \<^verbatim>\<open>geocode_addresses\<close> builds the callable as
  \<^verbatim>\<open>RateLimiter(geolocator.geocode, min_delay_seconds=1, max_retries=3,
  error_wait_seconds=5, swallow_exceptions=True)\<close>.  The class \<^verbatim>\<open>RateLimiter\<close> is
  geopy's (\<^verbatim>\<open>geopy.extra.rate_limiter\<close>), not the repository's; the model follows its
  documented contract.  A call takes a request slot (which enforces the minimum delay
  since the previous request) and calls the wrapped function.  Only a
  \<^verbatim>\<open>GeocoderServiceError\<close> is retried, any other exception is re-raised at once.
  \<^verbatim>\<open>max_retries\<close> is the number of retries after the first try, so that at most
  \<^verbatim>\<open>max_retries + 1\<close> requests are made for one query, and the limiter sleeps
  \<^verbatim>\<open>error_wait_seconds\<close> before each retry.  When the last try fails too, the
  exception is swallowed and \<^verbatim>\<open>None\<close> returned if \<^verbatim>\<open>swallow_exceptions\<close> is set,
  and re-raised otherwise.
\<close>

record rate_limiter =
  min_delay_seconds :: nat
  max_retries :: nat
  error_wait_seconds :: nat
  swallow_exceptions :: bool

text \<open>
  \<^verbatim>\<open>GeocoderUnavailable\<close> and \<^verbatim>\<open>GeocoderTimedOut\<close> are subclasses of
  \<^verbatim>\<open>GeocoderServiceError\<close>; the built-in \<^verbatim>\<open>ConnectionError\<close> is not.
\<close>

fun is_service_error :: "exn \<Rightarrow> bool" where
  "is_service_error GeocoderUnavailable = True"
| "is_service_error GeocoderTimedOut = True"
| "is_service_error Other_service_error = True"
| "is_service_error ConnectionError = False"
| "is_service_error Other_exception = False"

text \<open>
  The world of the rate limiter: the state \<open>'p\<close> of the provider behind
  \<^verbatim>\<open>geolocator.geocode\<close>, and the trace of what the limiter did, oldest first.  The
  length of the wait for a slot depends on the clock and is not modelled.
\<close>

datatype event = Acquire_slot | Request pystr | Sleep nat

record 'p network =
  provider :: 'p
  events :: "event list"

text \<open>\<^verbatim>\<open>RateLimiter.__call__\<close>, with the number of retries that are left.\<close>

fun tries ::
  "rate_limiter \<Rightarrow> (pystr \<Rightarrow> 'p \<Rightarrow> response \<times> 'p) \<Rightarrow> nat \<Rightarrow> pystr \<Rightarrow> 'p network
     \<Rightarrow> response \<times> 'p network"
where
  "tries rl func 0 q w =
     (let (resp, p) = func q (provider w);
          w1 = \<lparr>provider = p, events = events w @ [Acquire_slot, Request q]\<rparr>
      in case resp of
           Raises e \<Rightarrow>
             if is_service_error e
             then (if swallow_exceptions rl then No_match else Raises e, w1)
             else (Raises e, w1)
         | _ \<Rightarrow> (resp, w1))"
| "tries rl func (Suc n) q w =
     (let (resp, p) = func q (provider w);
          w1 = \<lparr>provider = p, events = events w @ [Acquire_slot, Request q]\<rparr>
      in case resp of
           Raises e \<Rightarrow>
             if is_service_error e
             then tries rl func n q (w1\<lparr>events := events w1 @ [Sleep (error_wait_seconds rl)]\<rparr>)
             else (Raises e, w1)
         | _ \<Rightarrow> (resp, w1))"

definition rate_limited ::
  "rate_limiter \<Rightarrow> (pystr \<Rightarrow> 'p \<Rightarrow> response \<times> 'p) \<Rightarrow> 'p network geocoder" where
  "rate_limited rl func q w = tries rl func (max_retries rl) q w"

definition limiter :: rate_limiter where
  "limiter = \<lparr>min_delay_seconds = 1, max_retries = 3, error_wait_seconds = 5,
              swallow_exceptions = True\<rparr>"

text \<open>
  To state the retry policy: the trace of \<open>k\<close> tries of one query, with the sleep
  between two tries, and the number of requests in a trace.
\<close>

fun tries_trace :: "nat \<Rightarrow> pystr \<Rightarrow> nat \<Rightarrow> event list" where
  "tries_trace pause q 0 = []"
| "tries_trace pause q (Suc 0) = [Acquire_slot, Request q]"
| "tries_trace pause q (Suc (Suc k)) =
     [Acquire_slot, Request q, Sleep pause] @ tries_trace pause q (Suc k)"

fun requests :: "event list \<Rightarrow> nat" where
  "requests [] = 0"
| "requests (Request q # es) = Suc (requests es)"
| "requests (e # es) = requests es"

definition always_times_out :: "pystr \<Rightarrow> unit \<Rightarrow> response \<times> unit" where
  "always_times_out q p = (Raises GeocoderTimedOut, p)"

definition no_network :: "pystr \<Rightarrow> unit \<Rightarrow> response \<times> unit" where
  "no_network q p = (Raises ConnectionError, p)"

definition offline :: "unit network session" where
  "offline = \<lparr>cache = Map.empty, world = \<lparr>provider = (), events = []\<rparr>, sent = [],
              console = []\<rparr>"

section \<open>excel-to-map.py: fix\_encoding, strip\_suite and load\_and\_clean\<close>

subsection \<open>fix\_encoding\<close>

text \<open>
  \<^verbatim>\<open>s.encode("latin1")\<close> succeeds when every code point is below U+0100, and the bytes
  are then the code points themselves.
\<close>

definition encode_latin1 :: "pystr \<Rightarrow> nat list option" where
  "encode_latin1 s = (if list_all (\<lambda>c. c < 256) s then Some s else None)"

text \<open>
  \<^verbatim>\<open>bytes.decode("utf8")\<close>, strict: the well-formed byte sequences of the Unicode
  standard (no overlong form, no surrogate, nothing above U+10FFFF).  \<open>need\<close> counts
  the continuation bytes still expected, \<open>acc\<close> holds the bits read so far, and the
  next continuation byte must lie in \<open>lo..hi\<close>.
\<close>

fun utf8_dec :: "nat \<Rightarrow> nat \<Rightarrow> nat \<Rightarrow> nat \<Rightarrow> nat list \<Rightarrow> pystr option" where
  "utf8_dec need acc lo hi [] = (if need = 0 then Some [] else None)"
| "utf8_dec need acc lo hi (b # bs) =
     (if need = 0 then
        (if b < 128 then map_option ((#) b) (utf8_dec 0 0 128 191 bs)
         else if 194 \<le> b \<and> b \<le> 223 then utf8_dec 1 (b - 192) 128 191 bs
         else if b = 224 then utf8_dec 2 0 160 191 bs
         else if (225 \<le> b \<and> b \<le> 236) \<or> b = 238 \<or> b = 239 then utf8_dec 2 (b - 224) 128 191 bs
         else if b = 237 then utf8_dec 2 13 128 159 bs
         else if b = 240 then utf8_dec 3 0 144 191 bs
         else if 241 \<le> b \<and> b \<le> 243 then utf8_dec 3 (b - 240) 128 191 bs
         else if b = 244 then utf8_dec 3 4 128 143 bs
         else None)
      else if lo \<le> b \<and> b \<le> hi then
        (if need = 1 then map_option ((#) (acc * 64 + (b - 128))) (utf8_dec 0 0 128 191 bs)
         else utf8_dec (need - 1) (acc * 64 + (b - 128)) 128 191 bs)
      else None)"

definition decode_utf8 :: "nat list \<Rightarrow> pystr option" where
  "decode_utf8 bs = utf8_dec 0 0 128 191 bs"

text \<open>The \<^verbatim>\<open>try\<close> block: on any failure the text stays as it was.\<close>

definition roundtrip :: "pystr \<Rightarrow> pystr" where
  "roundtrip s =
     (case encode_latin1 s of
        None \<Rightarrow> s
      | Some bs \<Rightarrow> (case decode_utf8 bs of None \<Rightarrow> s | Some s2 \<Rightarrow> s2))"

text \<open>
  \<^verbatim>\<open>s.replace(old, new)\<close>: the occurrences of \<open>old\<close> are replaced from left to right,
  without overlap; \<open>skip\<close> counts the characters of an occurrence still to pass.  For
  an empty \<open>old\<close> Python puts \<open>new\<close> around every character.
\<close>

fun replace_from :: "pystr \<Rightarrow> pystr \<Rightarrow> nat \<Rightarrow> pystr \<Rightarrow> pystr" where
  "replace_from old new skip [] = []"
| "replace_from old new skip (c # cs) =
     (if 0 < skip then replace_from old new (skip - 1) cs
      else if take (length old) (c # cs) = old
           then new @ replace_from old new (length old - 1) cs
           else c # replace_from old new 0 cs)"

definition py_replace :: "pystr \<Rightarrow> pystr \<Rightarrow> pystr \<Rightarrow> pystr" where
  "py_replace old new s =
     (if old = [] then new @ concat (map (\<lambda>c. c # new) s) else replace_from old new 0 s)"

text \<open>
  The dictionary \<^verbatim>\<open>replacements\<close> in its order, each key as the code points that the
  source file holds (the file is UTF-8): twelve code points in the first and the sixth
  key, six in the second and the seventh, three in the fourth, fifth and eighth, and
  the plain hyphen U+002D in the third.  The values are the hyphen (45) and the
  apostrophe (39).
\<close>

definition replacements :: "(pystr \<times> pystr) list" where
  "replacements =
     [([195, 131, 194, 162, 195, 130, 194, 128, 195, 130, 194, 145], [45]),
      ([195, 162, 194, 128, 194, 145], [45]),
      ([45], [45]),
      ([226, 128, 147], [45]),
      ([226, 128, 148], [45]),
      ([195, 131, 194, 162, 195, 130, 194, 128, 195, 130, 194, 153], [39]),
      ([195, 162, 194, 128, 194, 153], [39]),
      ([226, 128, 153], [39])]"

text \<open>\<^verbatim>\<open>s.split()\<close> and \<^verbatim>\<open>sep.join(xs)\<close>; \<open>cur\<close> is the word being read.\<close>

fun split_ws :: "pystr \<Rightarrow> pystr \<Rightarrow> pystr list" where
  "split_ws cur [] = (if cur = [] then [] else [cur])"
| "split_ws cur (c # cs) =
     (if py_isspace c then (if cur = [] then split_ws [] cs else cur # split_ws [] cs)
      else split_ws (cur @ [c]) cs)"

definition py_split :: "pystr \<Rightarrow> pystr list" where
  "py_split s = split_ws [] s"

fun py_join :: "pystr \<Rightarrow> pystr list \<Rightarrow> pystr" where
  "py_join sep [] = []"
| "py_join sep [x] = x"
| "py_join sep (x # y # ys) = x @ sep @ py_join sep (y # ys)"

definition fix_encoding_str :: "pystr \<Rightarrow> pystr" where
  "fix_encoding_str s =
     py_join [32]
       (py_split (foldl (\<lambda>t (bad, good). py_replace bad good t) (roundtrip s) replacements))"

fun fix_encoding :: "pyval \<Rightarrow> pyval" where
  "fix_encoding (PyStr s) = PyStr (fix_encoding_str s)"
| "fix_encoding v = v"

subsection \<open>strip\_suite\<close>

text \<open>
  Matching a letter of the pattern under \<^verbatim>\<open>re.IGNORECASE\<close>: \<open>p\<close> is the lower-case
  ASCII letter, and the text may hold it, its capital, and for \<^verbatim>\<open>s\<close> the long s
  (U+017F), for \<^verbatim>\<open>i\<close> the dotted capital and the dotless small i (U+0130, U+0131).
  The letters of the five keywords have no other case variants.
\<close>

definition ci_match :: "nat \<Rightarrow> nat \<Rightarrow> bool" where
  "ci_match p c \<longleftrightarrow>
     c = p \<or> c + 32 = p \<or> (p = 115 \<and> c = 383) \<or> (p = 105 \<and> (c = 304 \<or> c = 305))"

definition ci_prefix :: "pystr \<Rightarrow> pystr \<Rightarrow> bool" where
  "ci_prefix kw t \<longleftrightarrow> length kw \<le> length t \<and> list_all2 ci_match kw (take (length kw) t)"

text \<open>
  The alternatives \<^verbatim>\<open>Suite|Ste\.?|Unit|Bldg\.?|Building\<close>, in lower case, each with
  the flag "an optional period may follow".
\<close>

definition suite_keywords :: "(pystr \<times> bool) list" where
  "suite_keywords = [(py ''suite'', False), (py ''ste'', True), (py ''unit'', False),
               (py ''bldg'', True), (py ''building'', False)]"

text \<open>
  \<^verbatim>\<open>\b\<close> at the point where the rest \<open>r\<close> of the text begins: after a letter of a
  keyword it holds at the end of the text and before a character that is not a word
  character; after the period it holds before a word character.
\<close>

definition boundary_after_word :: "unicode_tables \<Rightarrow> pystr \<Rightarrow> bool" where
  "boundary_after_word U r \<longleftrightarrow> (case r of [] \<Rightarrow> True | c # _ \<Rightarrow> \<not> re_word U c)"

definition boundary_after_dot :: "unicode_tables \<Rightarrow> pystr \<Rightarrow> bool" where
  "boundary_after_dot U r \<longleftrightarrow> (case r of [] \<Rightarrow> False | c # _ \<Rightarrow> re_word U c)"

definition keyword_ahead :: "unicode_tables \<Rightarrow> pystr \<times> bool \<Rightarrow> pystr \<Rightarrow> bool" where
  "keyword_ahead U k t \<longleftrightarrow>
     ci_prefix (fst k) t \<and>
     (let r = drop (length (fst k)) t
      in boundary_after_word U r \<or>
         (snd k \<and> (case r of [] \<Rightarrow> False | c # r' \<Rightarrow> c = 46 \<and> boundary_after_dot U r')))"

text \<open>
  \<^verbatim>\<open>\s*(Suite|Ste\.?|Unit|Bldg\.?|Building)\b\<close> matches at the start of \<open>cs\<close>, the
  text after a comma.
\<close>

definition suite_ahead :: "unicode_tables \<Rightarrow> pystr \<Rightarrow> bool" where
  "suite_ahead U cs \<longleftrightarrow> list_ex (\<lambda>k. keyword_ahead U k (dropWhile py_isspace cs)) suite_keywords"

text \<open>
  \<^verbatim>\<open>re.sub(r",\s*(Suite|Ste\.?|Unit|Bldg\.?|Building)\b[^,]*", "", addr,
  flags=re.IGNORECASE)\<close>: a match starts at a comma (44) with a keyword ahead and
  runs up to the next comma or the end, where the search goes on.
\<close>

function sub_suite :: "unicode_tables \<Rightarrow> pystr \<Rightarrow> pystr" where
  "sub_suite U [] = []"
| "sub_suite U (c # cs) =
     (if c = 44 \<and> suite_ahead U cs then sub_suite U (dropWhile (\<lambda>x. x \<noteq> 44) cs)
      else c # sub_suite U cs)"
  by pat_completeness auto
termination
  by (relation "measure (\<lambda>(U, s). length s)")
    (auto simp: le_imp_less_Suc length_dropWhile_le)

text \<open>
  \<^verbatim>\<open>re.sub(r"#\s*\w+", "", addr)\<close>: a match starts at a \<^verbatim>\<open>#\<close> (35) when a word
  character follows the whitespace after it, and runs to the end of that word.
\<close>

function sub_hash :: "unicode_tables \<Rightarrow> pystr \<Rightarrow> pystr" where
  "sub_hash U [] = []"
| "sub_hash U (c # cs) =
     (if c = 35 \<and> boundary_after_dot U (dropWhile py_isspace cs)
      then sub_hash U (dropWhile (re_word U) (dropWhile py_isspace cs))
      else c # sub_hash U cs)"
  by pat_completeness auto
termination
proof (relation "measure (\<lambda>(U, s). length s)")
  fix U :: unicode_tables and c :: nat and cs :: pystr
  have "length (dropWhile (re_word U) (dropWhile py_isspace cs)) \<le> length cs"
    by (rule le_trans[OF length_dropWhile_le length_dropWhile_le])
  then show "((U, dropWhile (re_word U) (dropWhile py_isspace cs)), U, c # cs)
               \<in> measure (\<lambda>(U, s). length s)"
    by simp
qed simp_all

text \<open>
  \<^verbatim>\<open>re.sub(r"\s{2,}", " ", addr)\<close>: a run of two or more whitespace characters becomes
  one space; a single whitespace character stays as it is.
\<close>

function sub_spaces :: "pystr \<Rightarrow> pystr" where
  "sub_spaces [] = []"
| "sub_spaces (c # cs) =
     (if py_isspace c \<and> (case cs of [] \<Rightarrow> False | d # _ \<Rightarrow> py_isspace d)
      then 32 # sub_spaces (dropWhile py_isspace cs)
      else c # sub_spaces cs)"
  by pat_completeness auto
termination
  by (relation "measure length") (auto simp: le_imp_less_Suc length_dropWhile_le)

text \<open>
  \<^verbatim>\<open>re.sub(r"[,\s]+$", "", addr)\<close>: the commas and whitespace at the end of the text
  are deleted.
\<close>

definition sub_trailing :: "pystr \<Rightarrow> pystr" where
  "sub_trailing s = rev (dropWhile (\<lambda>c. c = 44 \<or> py_isspace c) (rev s))"

definition strip_suite_str :: "unicode_tables \<Rightarrow> pystr \<Rightarrow> pystr" where
  "strip_suite_str U addr =
     sub_trailing (py_strip (sub_spaces (sub_hash U (sub_suite U (fix_encoding_str addr)))))"

fun strip_suite :: "unicode_tables \<Rightarrow> pyval \<Rightarrow> pyval" where
  "strip_suite U (PyStr addr) = PyStr (strip_suite_str U addr)"
| "strip_suite U v = v"

subsection \<open>load\_and\_clean\<close>

text \<open>
  The argument is the frame that \<^verbatim>\<open>read_csv\<close> returns.  \<^verbatim>\<open>df.iloc[0]\<close> raises
  IndexError on a frame without rows.  When the first row looks like the header, its
  cells become the column labels (so a label may then be any cell value) and the row
  is dropped.
\<close>

definition EXPECTED_COLS :: "pystr list" where
  "EXPECTED_COLS = [py ''Tenant'', py ''Location'', py ''Address'', py ''City'', py ''State'']"

definition header_in_first_row :: "pyval list \<Rightarrow> bool" where
  "header_in_first_row first \<longleftrightarrow>
     (let first_row_values = map (\<lambda>v. py_strip (py_str v)) first
      in py ''Tenant'' \<in> set first_row_values \<and> py ''Location'' \<in> set first_row_values)"

definition labels_of :: "frame \<Rightarrow> pyval list" where
  "labels_of df =
     (if header_in_first_row (hd (rows df)) then hd (rows df) else map PyStr (columns df))"

definition body_of :: "frame \<Rightarrow> pyval list list" where
  "body_of df = (if header_in_first_row (hd (rows df)) then tl (rows df) else rows df)"

text \<open>\<^verbatim>\<open>df[col].astype(str).str.strip().apply(fix_encoding)\<close>, at one cell.\<close>

definition clean_cell :: "pyval \<Rightarrow> pystr" where
  "clean_cell v = fix_encoding_str (py_strip (py_str v))"

text \<open>
  One row of the frame returned: the five expected columns cleaned, then
  \<^verbatim>\<open>clean_address\<close> and \<^verbatim>\<open>full_address\<close>.
\<close>

definition clean_row :: "unicode_tables \<Rightarrow> pyval list \<Rightarrow> pyval list \<Rightarrow> tenant_row" where
  "clean_row U labels r =
     (let tenant = clean_cell (cell labels r (PyStr (py ''Tenant'')));
          location = clean_cell (cell labels r (PyStr (py ''Location'')));
          address = clean_cell (cell labels r (PyStr (py ''Address'')));
          city = clean_cell (cell labels r (PyStr (py ''City'')));
          state = clean_cell (cell labels r (PyStr (py ''State'')));
          clean = strip_suite_str U address
      in \<lparr>Tenant = tenant, Location = location, Address = address, City = city,
          State = state, clean_address = clean,
          full_address = clean @ py '', '' @ city @ py '', '' @ state @ py '', USA''\<rparr>)"

definition load_and_clean :: "unicode_tables \<Rightarrow> frame \<Rightarrow> error + tenant_row list" where
  "load_and_clean U df =
     (if rows df = [] then Inl IndexError
      else
        (let labels = labels_of df;
             missing = filter (\<lambda>c. PyStr c \<notin> set labels) EXPECTED_COLS
         in if missing \<noteq> [] then Inl (ValueError missing)
            else Inr (map (clean_row U labels) (body_of df))))"

text \<open>
  Concrete inputs: a frame whose address has blanks at both ends and a run of blanks
  inside, as a cell of a hand-edited sheet may.
\<close>

definition spaced_cell :: pystr where
  "spaced_cell = py '' 1 Main  St, Suite 5 ''"

definition spaced_frame :: frame where
  "spaced_frame =
     \<lparr>columns = [py ''Tenant'', py ''Location'', py ''Address'', py ''City'', py ''State''],
      rows = [[PyStr (py ''A''), PyStr (py ''L1''), PyStr spaced_cell, PyStr (py ''Tampa''),
               PyStr (py ''FL'')]]\<rparr>"

definition spaced_row :: tenant_row where
  "spaced_row =
     \<lparr>Tenant = py ''A'', Location = py ''L1'', Address = py ''1 Main St, Suite 5'',
      City = py ''Tampa'', State = py ''FL'', clean_address = py ''1 Main St'',
      full_address = py ''1 Main St, Tampa, FL, USA''\<rparr>"

section \<open>Properties of dedupe\_ios\_csv.py\<close>

lemmas text_defs = py_def py_isspace_def py_strip_def latin1_isalnum_def py_isalnum_def
  re_word_def latin1_lower_def py_lower_def sub_nonword_def normalize_text_def

subsection \<open>drop\_duplicates keeps the first row of each key\<close>

lemma drop_duplicates_indices:
  "drop_duplicates key seen rs =
     map ((!) rs)
       (filter (\<lambda>i. key (rs ! i) \<notin> set seen \<and> (\<forall>j<i. key (rs ! j) \<noteq> key (rs ! i)))
          [0..<length rs])"
proof (induction rs arbitrary: seen)
  case Nil
  then show ?case by simp
next
  case (Cons r rs)
  have upt: "[0..<length (r # rs)] = 0 # map Suc [0..<length rs]"
    by (simp add: upt_conv_Cons map_Suc_upt del: upt_Suc)
  have all_Suc: "\<And>P i. (\<forall>j<Suc i. P j) \<longleftrightarrow> P 0 \<and> (\<forall>j<i. P (Suc j))"
    by (metis less_Suc_eq_0_disj)
  show ?case
  proof (cases "key r \<in> set seen")
    case True
    have "filter (\<lambda>i. key (rs ! i) \<notin> set seen \<and> key r \<noteq> key (rs ! i) \<and>
                      (\<forall>j<i. key (rs ! j) \<noteq> key (rs ! i))) [0..<length rs]
        = filter (\<lambda>i. key (rs ! i) \<notin> set seen \<and>
                      (\<forall>j<i. key (rs ! j) \<noteq> key (rs ! i))) [0..<length rs]"
      using True by (intro filter_cong) auto
    with True show ?thesis
      by (simp only: upt) (simp add: Cons.IH filter_map comp_def all_Suc)
  next
    case False
    have "filter (\<lambda>i. key (rs ! i) \<notin> set seen \<and> key r \<noteq> key (rs ! i) \<and>
                      (\<forall>j<i. key (rs ! j) \<noteq> key (rs ! i))) [0..<length rs]
        = filter (\<lambda>i. key (rs ! i) \<notin> set (key r # seen) \<and>
                      (\<forall>j<i. key (rs ! j) \<noteq> key (rs ! i))) [0..<length rs]"
      by (intro filter_cong) auto
    with False show ?thesis
      by (simp only: upt) (simp add: Cons.IH filter_map comp_def all_Suc)
  qed
qed

lemma drop_duplicates_first_seen:
  "drop_duplicates key [] rs = map ((!) rs) (filter (first_seen key rs) [0..<length rs])"
proof -
  have "first_seen key rs = (\<lambda>i. \<forall>j<i. key (rs ! j) \<noteq> key (rs ! i))"
    by (rule ext) (simp add: first_seen_def)
  then show ?thesis
    by (simp add: drop_duplicates_indices)
qed

lemma length_drop_duplicates: "length (drop_duplicates key seen rs) \<le> length rs"
  by (induction rs arbitrary: seen) (auto simp: le_SucI)

subsection \<open>Texts that differ only in case and punctuation have one key\<close>

lemma isspace_latin1_lower: "py_isspace (latin1_lower c) = py_isspace c"
  by (auto simp: py_isspace_def latin1_lower_def)

lemma dropWhile_isspace_lower:
  "dropWhile py_isspace (map latin1_lower s) = map latin1_lower (dropWhile py_isspace s)"
  by (induction s) (simp_all add: isspace_latin1_lower)

lemma strip_map_lower: "py_strip (map latin1_lower s) = map latin1_lower (py_strip s)"
  by (simp add: py_strip_def dropWhile_isspace_lower rev_map)

lemma sub_nonword_punct: "sub_nonword U s = filter (\<lambda>c. \<not> punctuation U c) s"
  by (auto simp: sub_nonword_def punctuation_def re_word_def intro!: filter_cong)

lemma normalize_plain:
  assumes "plain_cell v"
  shows "normalize_text U v =
           sub_ws_runs False (filter (\<lambda>c. \<not> punctuation U c) (py_lower U (py_str v)))"
proof -
  from assms obtain s where v: "v = PyStr s"
    and l: "list_all (\<lambda>c. c < 256) s" and t: "py_strip s = s"
    by (cases v) auto
  have "py_strip (py_lower U s) = py_lower U s"
    using l t by (simp add: py_lower_def strip_map_lower)
  then show ?thesis
    by (simp add: v normalize_text_def sub_nonword_punct)
qed

lemma alike_cells_normalize:
  "alike_cells U v w \<Longrightarrow> normalize_text U v = normalize_text U w"
  by (simp add: alike_cells_def normalize_plain alike_def)

lemma alike_rows_key:
  "alike_rows U cols r r' \<Longrightarrow> dedupe_key U cols r = dedupe_key U cols r'"
  unfolding alike_rows_def dedupe_key_def
  by (metis alike_cells_normalize)

lemmas frame_defs = dedupe_main_def required_def Let_def dedupe_key_def cell_def
  drop_label_def drop_cell_def dedupe_key_col_def

subsection \<open>Claim C5\<close>

text \<open>
  C5, as the code has it.  When the header holds Address and State (labels trimmed,
  no label twice), the run raises nothing and writes back exactly the rows that are
  the first of their key, in input order and without the key column; it prints the
  input count, the kept count and the removed count, the removed count is the
  number of rows that are not the first of their key, and kept plus removed is the
  input count.  A later row is dropped whenever an earlier row is alike: both
  addresses and both states are latin-1 strings with no blank at either end that
  differ only in case and in punctuation other than the underscore.

  The claim's last clause holds in this form only.  \<open>normalize_text\<close> trims before it
  deletes punctuation, so a blank that follows a leading punctuation mark stays in
  the key (\<open>dedupe_blank_led_rows_both_kept\<close>), and the class \<^verbatim>\<open>\w\<close> keeps the
  underscore.
\<close>

theorem dedupe_first_seen_wins:
  assumes "py ''Address'' \<in> set (map py_strip (columns df))"
    and "py ''State'' \<in> set (map py_strip (columns df))"
    and "distinct (map py_strip (columns df))"
  shows "let cols = map py_strip (columns df);
             key = dedupe_key U cols;
             rs = rows df;
             kept = map ((!) rs) (filter (first_seen key rs) [0..<length rs]);
             dropped = filter (\<lambda>i. \<not> first_seen key rs i) [0..<length rs];
             out = dedupe_main U (Some df)
         in raised out = None \<and>
            written out = Some \<lparr>columns = drop_label dedupe_key_col cols,
                                 rows = map (drop_cell dedupe_key_col cols) kept\<rparr> \<and>
            printed out = [Deduplication_complete, Rows_before (int (length rs)),
                           Rows_after (int (length kept)), Removed (int (length dropped)),
                           File_updated] \<and>
            length kept + length dropped = length rs \<and>
            (\<forall>i j. i < j \<and> j < length rs \<and> alike_rows U cols (rs ! i) (rs ! j)
                   \<longrightarrow> \<not> first_seen key rs j)"
proof -
  define cols where "cols = map py_strip (columns df)"
  define key where "key = dedupe_key U cols"
  define rs where "rs = rows df"
  define kept where "kept = map ((!) rs) (filter (first_seen key rs) [0..<length rs])"
  define dropped where "dropped = filter (\<lambda>i. \<not> first_seen key rs i) [0..<length rs]"
  have no_missing: "filter (\<lambda>c. c \<notin> set cols) required = []"
    using assms(1,2) by (simp add: required_def cols_def)
  have kept_eq: "drop_duplicates key [] rs = kept"
    by (simp add: kept_def drop_duplicates_first_seen)
  have count: "length kept + length dropped = length rs"
    using sum_length_filter_compl[of "first_seen key rs" "[0..<length rs]"]
    by (simp add: kept_def dropped_def)
  then have removed: "int (length rs) - int (length kept) = int (length dropped)"
    by linarith
  have alike: "\<not> first_seen key rs j" if "i < j" "alike_rows U cols (rs ! i) (rs ! j)" for i j
    using that alike_rows_key[of U cols "rs ! i" "rs ! j"]
    by (auto simp: first_seen_def key_def)
  have out: "dedupe_main U (Some df) =
      \<lparr>printed = [Deduplication_complete, Rows_before (int (length rs)),
                  Rows_after (int (length kept)), Removed (int (length dropped)), File_updated],
       written = Some \<lparr>columns = drop_label dedupe_key_col cols,
                       rows = map (drop_cell dedupe_key_col cols) kept\<rparr>,
       raised = None\<rparr>"
    using no_missing kept_eq removed
    by (simp add: dedupe_main_def Let_def cols_def[symmetric] key_def[symmetric] rs_def[symmetric])
  show ?thesis
    unfolding Let_def cols_def[symmetric] key_def[symmetric] rs_def[symmetric]
      kept_def[symmetric] dropped_def[symmetric]
    using alike by (auto simp: out count)
qed

text \<open>
  The theorem at the specification's example: the two rows are alike, the second is
  not the first of its key, and only tenantA's row is written.
\<close>

theorem dedupe_first_seen_wins_witness:
  "py ''Address'' \<in> set (map py_strip (columns spec_rows)) \<and>
   py ''State'' \<in> set (map py_strip (columns spec_rows)) \<and>
   distinct (map py_strip (columns spec_rows)) \<and>
   alike_rows no_ext_tables (map py_strip (columns spec_rows))
     (rows spec_rows ! 0) (rows spec_rows ! 1) \<and>
   \<not> first_seen (dedupe_key no_ext_tables (map py_strip (columns spec_rows)))
       (rows spec_rows) 1 \<and>
   written (dedupe_main no_ext_tables (Some spec_rows)) =
     Some \<lparr>columns = [py ''Tenant'', py ''Address'', py ''State''],
           rows = [[PyStr (py ''tenantA''), PyStr (py ''1 Main St''), PyStr (py ''FL'')]]\<rparr> \<and>
   printed (dedupe_main no_ext_tables (Some spec_rows)) =
     [Deduplication_complete, Rows_before 2, Rows_after 1, Removed 1, File_updated]"
proof -
  have h1: "py ''Address'' \<in> set (map py_strip (columns spec_rows))"
    by (simp add: spec_rows_def text_defs)
  have h2: "py ''State'' \<in> set (map py_strip (columns spec_rows))"
    by (simp add: spec_rows_def text_defs)
  have h3: "distinct (map py_strip (columns spec_rows))"
    by (simp add: spec_rows_def text_defs)
  have a: "alike_rows no_ext_tables (map py_strip (columns spec_rows))
             (rows spec_rows ! 0) (rows spec_rows ! 1)"
    by (simp add: spec_rows_def alike_rows_def alike_cells_def alike_def punctuation_def
        no_ext_tables_def cell_def text_defs)
  have n: "(0::nat) < 1 \<and> 1 < length (rows spec_rows)"
    by (simp add: spec_rows_def)
  from dedupe_first_seen_wins [OF h1 h2 h3, of no_ext_tables] a n
  have "\<not> first_seen (dedupe_key no_ext_tables (map py_strip (columns spec_rows)))
           (rows spec_rows) 1"
    unfolding Let_def by blast
  moreover have "written (dedupe_main no_ext_tables (Some spec_rows)) =
     Some \<lparr>columns = [py ''Tenant'', py ''Address'', py ''State''],
           rows = [[PyStr (py ''tenantA''), PyStr (py ''1 Main St''), PyStr (py ''FL'')]]\<rparr>"
    by (simp add: spec_rows_def no_ext_tables_def frame_defs text_defs)
  moreover have "printed (dedupe_main no_ext_tables (Some spec_rows)) =
     [Deduplication_complete, Rows_before 2, Rows_after 1, Removed 1, File_updated]"
    by (simp add: spec_rows_def no_ext_tables_def frame_defs text_defs)
  ultimately show ?thesis
    using h1 h2 h3 a by blast
qed

text \<open>
  The claim's last clause as stated fails.  The addresses of \<open>blank_led_rows\<close> differ
  only in a hyphen and those of \<open>underscore_rows\<close> only in an underscore, the states
  are equal, and the run keeps both rows of either frame.
\<close>

theorem dedupe_blank_led_rows_both_kept:
  "alike no_ext_tables (py '' 1 Main St'') (py ''- 1 Main St'') \<and>
   written (dedupe_main no_ext_tables (Some blank_led_rows)) = Some blank_led_rows \<and>
   written (dedupe_main no_ext_tables (Some underscore_rows)) = Some underscore_rows"
  by (simp add: blank_led_rows_def underscore_rows_def alike_def punctuation_def
      no_ext_tables_def frame_defs text_defs)

subsection \<open>Claim C6\<close>

text \<open>
  C6 at a text with an underscore.  The underscore is neither alphanumeric nor
  whitespace, and the comment on the source line says that it removes punctuation;
  the pattern \<^verbatim>\<open>[^\w\s]\<close> keeps the underscore, so \<open>normalize_text\<close> returns
  \<^verbatim>\<open>12 oak_ridge rd\<close> for \<^verbatim>\<open>12 Oak_Ridge Rd.\<close>, where the claim gives
  \<^verbatim>\<open>12 oakridge rd\<close>.
\<close>

theorem normalize_text_keeps_underscore:
  "normalize_text no_ext_tables (PyStr (py ''12 Oak_Ridge Rd.'')) = py ''12 oak_ridge rd''"
  by (simp add: text_defs)

subsection \<open>Claim C8\<close>

text \<open>
  C8.  When Address or State is not among the trimmed column labels, the run prints
  the labels that are present, raises ValueError with the (non-empty) list of missing
  labels, and writes no file.
\<close>

theorem dedupe_missing_column_aborts:
  assumes "py ''Address'' \<notin> set (map py_strip (columns df)) \<or>
           py ''State'' \<notin> set (map py_strip (columns df))"
  shows "\<exists>missing. missing \<noteq> [] \<and>
           set missing = {c \<in> set required. c \<notin> set (map py_strip (columns df))} \<and>
           dedupe_main U (Some df) =
             \<lparr>printed = [Available_columns (map py_strip (columns df))],
              written = None,
              raised = Some (ValueError missing)\<rparr>"
proof -
  let ?missing = "filter (\<lambda>c. c \<notin> set (map py_strip (columns df))) required"
  have "?missing \<noteq> []"
    using assms by (auto simp: required_def)
  moreover have "set ?missing = {c \<in> set required. c \<notin> set (map py_strip (columns df))}"
    by auto
  ultimately show ?thesis
    by (intro exI[of _ ?missing]) (simp add: dedupe_main_def Let_def)
qed

theorem dedupe_missing_column_aborts_witness:
  "py ''State'' \<notin> set (map py_strip (columns no_state_column)) \<and>
   dedupe_main no_ext_tables (Some no_state_column) =
     \<lparr>printed = [Available_columns [py ''Tenant'', py ''Address'']],
      written = None,
      raised = Some (ValueError [py ''State''])\<rparr>"
proof -
  have h: "py ''State'' \<notin> set (map py_strip (columns no_state_column))"
    by (simp add: no_state_column_def text_defs)
  then have "py ''Address'' \<notin> set (map py_strip (columns no_state_column)) \<or>
             py ''State'' \<notin> set (map py_strip (columns no_state_column))"
    by simp
  from dedupe_missing_column_aborts [OF this, of no_ext_tables]
  obtain missing where
    "dedupe_main no_ext_tables (Some no_state_column) =
       \<lparr>printed = [Available_columns (map py_strip (columns no_state_column))],
        written = None, raised = Some (ValueError missing)\<rparr>"
    by blast
  moreover have "dedupe_main no_ext_tables (Some no_state_column) =
     \<lparr>printed = [Available_columns [py ''Tenant'', py ''Address'']],
      written = None,
      raised = Some (ValueError [py ''State''])\<rparr>"
    by (simp add: no_state_column_def frame_defs text_defs)
  ultimately show ?thesis
    using h by simp
qed

section \<open>Properties of geocode\_addresses\<close>

subsection \<open>One call of geocode\_one\<close>

lemma strip_blank_iff: "py_strip a = [] \<longleftrightarrow> (\<forall>c\<in>set a. py_isspace c)"
proof
  assume "py_strip a = []"
  then have all: "\<forall>c\<in>set (dropWhile py_isspace a). py_isspace c"
    by (simp add: py_strip_def)
  have "dropWhile py_isspace a = []"
  proof (cases "dropWhile py_isspace a")
    case (Cons c cs)
    with hd_dropWhile[of py_isspace a] all show ?thesis by auto
  qed simp
  then show "\<forall>c\<in>set a. py_isspace c"
    by simp
next
  assume "\<forall>c\<in>set a. py_isspace c"
  then have "dropWhile py_isspace a = []" by simp
  then show "py_strip a = []" unfolding py_strip_def by (simp del: dropWhile_eq_Nil_conv)
qed

lemma fst_handled: "handled q resp = (r, m) \<Longrightarrow> r = fst (handled q resp)"
  by simp

lemma geocode_one_hit:
  "py_strip a \<noteq> [] \<Longrightarrow> cache s (py_strip a) = Some r \<Longrightarrow> geocode_one g (Some a) s = (r, s)"
  by (simp add: geocode_one_def)

lemma geocode_one_miss:
  assumes "py_strip a \<noteq> []" "cache s (py_strip a) = None"
  shows "geocode_one g (Some a) s =
           (fst (handled (py_strip a) (fst (g (py_strip a) (world s)))),
            s\<lparr>cache := (cache s)(py_strip a \<mapsto> fst (handled (py_strip a) (fst (g (py_strip a) (world s))))),
              world := snd (g (py_strip a) (world s)),
              sent := sent s @ [py_strip a],
              console := console s @ snd (handled (py_strip a) (fst (g (py_strip a) (world s))))\<rparr>)"
  using assms by (simp add: geocode_one_def Let_def split: prod.splits)

lemma geocode_one_blank: "py_strip a = [] \<Longrightarrow> geocode_one g (Some a) s = ((None, None), s)"
  by (simp add: geocode_one_def)

lemma geocode_one_None: "geocode_one g None s = ((None, None), s)"
  by (simp add: geocode_one_def py_strip_def)

lemma geocode_one_cases:
  obtains (blank) "py_strip a = []" "geocode_one g (Some a) s = ((None, None), s)"
  | (hit) r where "py_strip a \<noteq> []" "cache s (py_strip a) = Some r" "geocode_one g (Some a) s = (r, s)"
  | (miss) r m w where "py_strip a \<noteq> []" "cache s (py_strip a) = None"
      "geocode_one g (Some a) s = (r, s\<lparr>cache := (cache s)(py_strip a \<mapsto> r), world := w,
          sent := sent s @ [py_strip a], console := console s @ m\<rparr>)"
proof (cases "py_strip a = []")
  case True
  then show ?thesis using blank geocode_one_blank by blast
next
  case False
  show ?thesis
  proof (cases "cache s (py_strip a)")
    case None
    from geocode_one_miss[OF False None, of g] show ?thesis using miss False None by blast
  next
    case (Some r)
    then show ?thesis using hit False geocode_one_hit by blast
  qed
qed

lemma geocode_one_step:
  assumes "geocode_one g (Some a) s = (r, s')"
  shows "\<exists>new. sent s' = sent s @ new \<and> set new \<inter> dom (cache s) = {} \<and> distinct new \<and>
               dom (cache s') = dom (cache s) \<union> set new \<and> (\<forall>q\<in>dom (cache s). cache s' q = cache s q)"
proof (rule geocode_one_cases[where a=a and g=g and s=s], goal_cases)
  case 1
  with assms show ?case by (intro exI[of _ "[]"]) auto
next
  case (2 r)
  with assms show ?case by (intro exI[of _ "[]"]) auto
next
  case (3 r m w)
  with assms show ?case by (intro exI[of _ "[py_strip a]"]) auto
qed

subsection \<open>The loop\<close>

lemma geocode_loop_length:
  "geocode_loop g n i rs s = (cs, s') \<Longrightarrow> length cs = length rs"
  by (induction rs arbitrary: i s cs s') (auto simp: Let_def split: prod.splits if_splits)

lemma geocode_loop_sent:
  assumes "geocode_loop g n i rs s = (cs, s')"
  shows "\<exists>new. sent s' = sent s @ new \<and> set new \<inter> dom (cache s) = {} \<and> distinct new \<and>
               dom (cache s') = dom (cache s) \<union> set new"
  using assms
proof (induction rs arbitrary: i s cs s')
  case Nil
  then show ?case by (intro exI[of _ "[]"]) auto
next
  case (Cons r rs)
  obtain c s1 where one: "geocode_one g (Some (full_address r)) s = (c, s1)"
    by (cases "geocode_one g (Some (full_address r)) s")
  define s2 where "s2 = (if i = 1 \<or> i = n \<or> i mod 10 = 0
                then s1\<lparr>console := console s1 @ [Progress i n (full_address r) c]\<rparr> else s1)"
  have s2: "sent s2 = sent s1" "cache s2 = cache s1"
    by (simp_all add: s2_def)
  obtain cs' where rest: "geocode_loop g n (i + 1) rs s2 = (cs', s')"
    using Cons.prems one by (auto simp: Let_def s2_def split: prod.splits if_splits)
  from geocode_one_step[OF one] obtain new1 where n1:
    "sent s1 = sent s @ new1" "set new1 \<inter> dom (cache s) = {}" "distinct new1"
    "dom (cache s1) = dom (cache s) \<union> set new1"
    by blast
  from Cons.IH[OF rest] obtain new2 where n2:
    "sent s' = sent s2 @ new2" "set new2 \<inter> dom (cache s2) = {}" "distinct new2"
    "dom (cache s') = dom (cache s2) \<union> set new2"
    by blast
  show ?case
    using n1 n2 s2 by (intro exI[of _ "new1 @ new2"]) auto
qed

lemma located_sent:
  assumes "located g df seed w = (df1, s)"
  shows "distinct (sent s) \<and> set (sent s) \<inter> (case seed of None \<Rightarrow> {} | Some m \<Rightarrow> dom m) = {}
         \<and> set (sent s) \<subseteq> dom (cache s)"
proof -
  define start :: "'a session" where "start = \<lparr>cache = (case seed of None \<Rightarrow> Map.empty
                                | Some seed \<Rightarrow> Map.empty ++ seed),
                   world = w, sent = [], console = [Geocoding_addresses]\<rparr>"
  obtain cs where loop: "geocode_loop g (length df) 1 df start = (cs, s)"
    using assms by (auto simp: located_def start_def Let_def split: prod.splits)
  from geocode_loop_sent[OF loop] obtain new where
    "sent s = sent start @ new" "set new \<inter> dom (cache start) = {}" "distinct new"
    "dom (cache s) = dom (cache start) \<union> set new"
    by blast
  then show ?thesis
    by (auto simp: start_def split: option.splits)
qed



lemma truncate_with_coords: "tenant_row.truncate (with_coords r c) = r"
  by (simp add: with_coords_def tenant_row.extend_def tenant_row.truncate_def)

lemma located_rows:
  assumes "located g df0 seed w = (df, s)"
  shows "length df = length df0 \<and> map tenant_row.truncate df = df0"
proof -
  obtain cs where loop: "geocode_loop g (length df0) 1 df0
        \<lparr>cache = (case seed of None \<Rightarrow> Map.empty | Some seed \<Rightarrow> Map.empty ++ seed),
         world = w, sent = [], console = [Geocoding_addresses]\<rparr> = (cs, s)"
    and df: "df = map2 with_coords df0 cs"
    using assms by (auto simp: located_def Let_def split: prod.splits)
  have len: "length cs = length df0"
    using loop by (rule geocode_loop_length)
  have "map tenant_row.truncate (map2 with_coords df0 cs) = df0"
    using len by (induction df0 cs rule: list_induct2') (simp_all add: truncate_with_coords)
  with len df show ?thesis by simp
qed


lemmas geo_defs = geocode_one_def handled_def located_def geocode_addresses_def with_coords_def
  isna_def Let_def tenant_row.extend_def tenant_row.truncate_def

lemmas example_defs = stub_found_def stub_no_match_def stub_timed_out_def stub_main_st_def
  row_suite_def row_plain_def row_unknown_def fresh_def

subsection \<open>Claim C1\<close>

text \<open>
  C1.  For a query that is not empty once stripped, \<open>geocode_one\<close> leaves its result
  in the cache under the stripped query, and a second call from the session it left
  returns the same result and changes nothing: no query is handed to the provider,
  and the world is untouched.  On a hit the first call changes nothing either.  On a
  miss the provider is called once, and what it does decides the result, which is
  stored in each of the three cases: coordinates when it finds a location,
  \<open>(None, None)\<close> when it finds none and when it raises.  Over a whole batch no
  query is sent twice, and none that the seeding dictionary holds is sent at all.
\<close>

theorem repeat_query_not_resent:
  assumes "py_strip a \<noteq> []"
  shows "(case geocode_one geocode (Some a) s of (r, s1) \<Rightarrow>
            cache s1 (py_strip a) = Some r \<and>
            geocode_one geocode (Some a) s1 = (r, s1) \<and>
            (case cache s (py_strip a) of
               Some hit \<Rightarrow> r = hit \<and> s1 = s
             | None \<Rightarrow>
                 r = (case fst (geocode (py_strip a) (world s)) of
                        Found la lo \<Rightarrow> (Some la, Some lo)
                      | No_match \<Rightarrow> (None, None)
                      | Raises e \<Rightarrow> (None, None)) \<and>
                 cache s1 = (cache s)(py_strip a \<mapsto> r) \<and>
                 sent s1 = sent s @ [py_strip a])) \<and>
         (case located geocode df seed w of (df1, s2) \<Rightarrow>
            distinct (sent s2) \<and>
            set (sent s2) \<inter> (case seed of None \<Rightarrow> {} | Some m \<Rightarrow> dom m) = {} \<and>
            set (sent s2) \<subseteq> dom (cache s2))"
proof -
  have one: "case geocode_one geocode (Some a) s of (r, s1) \<Rightarrow>
            cache s1 (py_strip a) = Some r \<and>
            geocode_one geocode (Some a) s1 = (r, s1) \<and>
            (case cache s (py_strip a) of
               Some hit \<Rightarrow> r = hit \<and> s1 = s
             | None \<Rightarrow>
                 r = (case fst (geocode (py_strip a) (world s)) of
                        Found la lo \<Rightarrow> (Some la, Some lo)
                      | No_match \<Rightarrow> (None, None)
                      | Raises e \<Rightarrow> (None, None)) \<and>
                 cache s1 = (cache s)(py_strip a \<mapsto> r) \<and>
                 sent s1 = sent s @ [py_strip a])"
  proof (cases "cache s (py_strip a)")
    case None
    have h: "fst (handled q resp) = (case resp of Found la lo \<Rightarrow> (Some la, Some lo)
                      | No_match \<Rightarrow> (None, None) | Raises e \<Rightarrow> (None, None))" for q resp
      by (simp add: handled_def split: response.splits)
    show ?thesis
      using assms None
      by (simp add: geocode_one_miss geocode_one_hit h)
  next
    case (Some hit)
    then show ?thesis
      using assms by (simp add: geocode_one_hit)
  qed
  have batch: "case located geocode df seed w of (df1, s2) \<Rightarrow>
            distinct (sent s2) \<and>
            set (sent s2) \<inter> (case seed of None \<Rightarrow> {} | Some m \<Rightarrow> dom m) = {} \<and>
            set (sent s2) \<subseteq> dom (cache s2)"
    using located_sent[of geocode df seed w] by (cases "located geocode df seed w") blast
  from one batch show ?thesis by (rule conjI)
qed

theorem repeat_query_not_resent_witness:
  "py_strip (py ''1 Main St, Tampa, FL, USA '') \<noteq> [] \<and>
   geocode_one stub_found (Some (py ''1 Main St, Tampa, FL, USA '')) fresh =
     ((Some 28, Some (- 82)),
      \<lparr>cache = [py ''1 Main St, Tampa, FL, USA'' \<mapsto> (Some 28, Some (- 82))],
       world = 1, sent = [py ''1 Main St, Tampa, FL, USA''], console = []\<rparr>) \<and>
   geocode_one stub_found (Some (py ''1 Main St, Tampa, FL, USA ''))
       (snd (geocode_one stub_found (Some (py ''1 Main St, Tampa, FL, USA '')) fresh)) =
     geocode_one stub_found (Some (py ''1 Main St, Tampa, FL, USA '')) fresh \<and>
   sent (snd (located stub_found [row_suite, row_plain] None 0)) =
     [py ''1 Main St, Tampa, FL, USA''] \<and>
   world (snd (located stub_found [row_suite, row_plain] None 0)) = 1"
proof -
  have h: "py_strip (py ''1 Main St, Tampa, FL, USA '') \<noteq> []"
    by (simp add: text_defs)
  have one: "geocode_one stub_found (Some (py ''1 Main St, Tampa, FL, USA '')) fresh =
     ((Some 28, Some (- 82)),
      \<lparr>cache = [py ''1 Main St, Tampa, FL, USA'' \<mapsto> (Some 28, Some (- 82))],
       world = 1, sent = [py ''1 Main St, Tampa, FL, USA''], console = []\<rparr>)"
    by (simp add: geo_defs example_defs text_defs)
  have batch: "sent (snd (located stub_found [row_suite, row_plain] None 0)) =
     [py ''1 Main St, Tampa, FL, USA''] \<and>
     world (snd (located stub_found [row_suite, row_plain] None 0)) = 1"
    by (simp add: geo_defs example_defs text_defs)
  from repeat_query_not_resent [OF h, where geocode = stub_found and s = fresh
      and df = "[row_suite, row_plain]" and seed = None and w = 0]
  have "geocode_one stub_found (Some (py ''1 Main St, Tampa, FL, USA ''))
       (snd (geocode_one stub_found (Some (py ''1 Main St, Tampa, FL, USA '')) fresh)) =
     geocode_one stub_found (Some (py ''1 Main St, Tampa, FL, USA '')) fresh"
    by (auto split: prod.splits)
  with h one batch show ?thesis by simp
qed

subsection \<open>Claim C4\<close>

text \<open>
  C4.  For \<^verbatim>\<open>None\<close>, the empty string or a string of whitespace only,
  \<open>geocode_one\<close> returns \<open>(None, None)\<close> and the session it was given: the cache is
  neither read nor written, and nothing is sent to the provider.
\<close>

theorem blank_query_resolves_absent:
  assumes "addr = None \<or> (\<exists>a. addr = Some a \<and> list_all py_isspace a)"
  shows "geocode_one geocode addr s = ((None, None), s)"
  using assms by (auto simp: geocode_one_None geocode_one_blank strip_blank_iff list_all_iff)

theorem blank_query_resolves_absent_witness:
  "list_all py_isspace (py ''   '') \<and>
   geocode_one stub_found (Some (py ''   '')) fresh = ((None, None), fresh) \<and>
   geocode_one stub_found (Some []) fresh = ((None, None), fresh) \<and>
   dom (cache (snd (geocode_one stub_found (Some (py ''   '')) fresh))) = {}"
proof -
  have h: "list_all py_isspace (py ''   '')"
    by (simp add: text_defs)
  have "geocode_one stub_found (Some (py ''   '')) fresh = ((None, None), fresh)"
    using h by (intro blank_query_resolves_absent) simp
  moreover have "geocode_one stub_found (Some []) fresh = ((None, None), fresh)"
    by (intro blank_query_resolves_absent) simp
  ultimately show ?thesis
    using h by (simp add: fresh_def)
qed

subsection \<open>Claim C2\<close>

text \<open>
  C2.  The frame with coordinates has one row for each input row, in the same order
  and with the input's fields unchanged.  The frame returned holds exactly its rows
  with both coordinates, the failure file exactly its rows with a coordinate missing;
  the two have no row in common, together they are the whole frame, and their sizes
  add up to the input count.
\<close>

theorem resolved_failed_partition:
  "case located geocode df0 seed w of (df, s) \<Rightarrow>
     (let out = geocode_addresses geocode df0 seed w;
          resolved = filter (\<lambda>r. lat r \<noteq> None \<and> lon r \<noteq> None) df;
          failed = filter (\<lambda>r. lat r = None \<or> lon r = None) df
      in length df = length df0 \<and>
         map tenant_row.truncate df = df0 \<and>
         returned out = resolved \<and>
         failures_file out = (if failed = [] then None else Some failed) \<and>
         length resolved + length failed = length df0 \<and>
         set resolved \<inter> set failed = {} \<and>
         set resolved \<union> set failed = set df)"
proof (cases "located geocode df0 seed w")
  case (Pair df s)
  have rows: "length df = length df0" "map tenant_row.truncate df = df0"
    using located_rows[OF Pair] by simp_all
  have compl: "(\<lambda>r::located_row. lat r = None \<or> lon r = None) = (\<lambda>r. \<not> (lat r \<noteq> None \<and> lon r \<noteq> None))"
    by auto
  have count: "length (filter (\<lambda>r. lat r \<noteq> None \<and> lon r \<noteq> None) df) +
               length (filter (\<lambda>r. lat r = None \<or> lon r = None) df) = length df"
    unfolding compl by (rule sum_length_filter_compl)
  show ?thesis
    using rows count
    by (auto simp: Pair geocode_addresses_def isna_def Let_def)
qed

theorem resolved_failed_partition_witness:
  "returned (geocode_addresses stub_main_st [row_suite, row_unknown, row_plain] None 0) =
     [with_coords row_suite (Some 28, Some (- 82)),
      with_coords row_plain (Some 28, Some (- 82))] \<and>
   failures_file (geocode_addresses stub_main_st [row_suite, row_unknown, row_plain] None 0) =
     Some [with_coords row_unknown (None, None)] \<and>
   map tenant_row.truncate (fst (located stub_main_st [row_suite, row_unknown, row_plain] None 0)) =
     [row_suite, row_unknown, row_plain]"
proof -
  have "fst (located stub_main_st [row_suite, row_unknown, row_plain] None 0) =
     [with_coords row_suite (Some 28, Some (- 82)),
      with_coords row_unknown (None, None),
      with_coords row_plain (Some 28, Some (- 82))]"
    by (simp add: geo_defs example_defs text_defs)
  then obtain s where l: "located stub_main_st [row_suite, row_unknown, row_plain] None 0 =
     ([with_coords row_suite (Some 28, Some (- 82)),
       with_coords row_unknown (None, None),
       with_coords row_plain (Some 28, Some (- 82))], s)"
    by (cases "located stub_main_st [row_suite, row_unknown, row_plain] None 0") simp
  from resolved_failed_partition [of stub_main_st "[row_suite, row_unknown, row_plain]" None 0]
  show ?thesis
    unfolding l by (simp add: with_coords_def tenant_row.extend_def tenant_row.truncate_def Let_def example_defs)
qed

subsection \<open>Claim C10\<close>

text \<open>
  C10.  \<^verbatim>\<open>to_csv\<close> is called on \<^verbatim>\<open>geocode_failures.csv\<close> exactly when some row of
  the batch lacks a coordinate; the frame written is then the non-empty list of those
  rows.  When every row has both coordinates no file is written.
\<close>

theorem failures_file_only_on_failure:
  "case located geocode df0 seed w of (df, s) \<Rightarrow>
     (let out = geocode_addresses geocode df0 seed w
      in (failures_file out = None \<longleftrightarrow> (\<forall>r\<in>set df. lat r \<noteq> None \<and> lon r \<noteq> None)) \<and>
         (\<forall>rs. failures_file out = Some rs \<longrightarrow>
                rs \<noteq> [] \<and> rs = filter (\<lambda>r. lat r = None \<or> lon r = None) df))"
proof (cases "located geocode df0 seed w")
  case (Pair df s)
  show ?thesis
    by (auto simp: Pair geocode_addresses_def isna_def Let_def filter_empty_conv)
qed

theorem failures_file_only_on_failure_witness:
  "failures_file (geocode_addresses stub_found [row_suite, row_plain] None 0) = None \<and>
   failures_file (geocode_addresses stub_no_match [row_suite, row_plain] None 0) =
     Some [with_coords row_suite (None, None), with_coords row_plain (None, None)]"
proof -
  have "fst (located stub_found [row_suite, row_plain] None 0) =
     [with_coords row_suite (Some 28, Some (- 82)),
      with_coords row_plain (Some 28, Some (- 82))]"
    by (simp add: geo_defs example_defs text_defs)
  then obtain s where found: "located stub_found [row_suite, row_plain] None 0 =
     ([with_coords row_suite (Some 28, Some (- 82)),
       with_coords row_plain (Some 28, Some (- 82))], s)"
    by (cases "located stub_found [row_suite, row_plain] None 0") simp
  have "fst (located stub_no_match [row_suite, row_plain] None 0) =
     [with_coords row_suite (None, None), with_coords row_plain (None, None)]"
    by (simp add: geo_defs example_defs text_defs)
  then obtain s' where none: "located stub_no_match [row_suite, row_plain] None 0 =
     ([with_coords row_suite (None, None), with_coords row_plain (None, None)], s')"
    by (cases "located stub_no_match [row_suite, row_plain] None 0") simp
  from failures_file_only_on_failure [of stub_found "[row_suite, row_plain]" None 0]
  have "failures_file (geocode_addresses stub_found [row_suite, row_plain] None 0) = None"
    unfolding found by (simp add: with_coords_def tenant_row.extend_def Let_def)
  moreover
  from failures_file_only_on_failure [of stub_no_match "[row_suite, row_plain]" None 0]
  have "failures_file (geocode_addresses stub_no_match [row_suite, row_plain] None 0) =
     Some [with_coords row_suite (None, None), with_coords row_plain (None, None)]"
    unfolding none
    by (cases "failures_file (geocode_addresses stub_no_match [row_suite, row_plain] None 0)")
      (simp_all add: with_coords_def tenant_row.extend_def Let_def)
  ultimately show ?thesis by simp
qed

subsection \<open>Claim C3\<close>

lemma requests_tries_trace: "requests (tries_trace pause q k) = k"
  by (induction pause q k rule: tries_trace.induct) simp_all

lemma tries_trace_Suc:
  "[Acquire_slot, Request q, Sleep pause] @ tries_trace pause q k = tries_trace pause q (Suc k)
   \<or> k = 0"
  by (cases k) simp_all

lemma tries_bounded:
  assumes "tries rl func n q w = (resp, w')"
  shows "\<exists>k. 1 \<le> k \<and> k \<le> Suc n \<and>
            events w' = events w @ tries_trace (error_wait_seconds rl) q k \<and>
            (swallow_exceptions rl \<longrightarrow> (\<forall>e. resp = Raises e \<longrightarrow> \<not> is_service_error e))"
  using assms
proof (induction n arbitrary: w)
  case 0
  then show ?case
    by (intro exI[of _ 1])
      (auto simp: Let_def split: prod.splits response.splits if_splits)
next
  case (Suc n)
  obtain r p where f: "func q (provider w) = (r, p)"
    by (cases "func q (provider w)")
  show ?case
  proof (cases "\<exists>e. r = Raises e \<and> is_service_error e")
    case True
    then obtain e where e: "r = Raises e" "is_service_error e" by blast
    let ?w = "\<lparr>provider = p, events = events w @ [Acquire_slot, Request q, Sleep (error_wait_seconds rl)]\<rparr>"
    have "tries rl func n q ?w = (resp, w')"
      using Suc.prems f e by (simp add: Let_def)
    from Suc.IH[OF this] obtain k where k: "1 \<le> k" "k \<le> Suc n"
      "events w' = events ?w @ tries_trace (error_wait_seconds rl) q k"
      "swallow_exceptions rl \<longrightarrow> (\<forall>e. resp = Raises e \<longrightarrow> \<not> is_service_error e)"
      by blast
    from k(1) obtain j where j: "k = Suc j" by (cases k) auto
    have "events w' = events w @ tries_trace (error_wait_seconds rl) q (Suc k)"
      using k(3) by (simp add: j)
    with k show ?thesis
      by (intro exI[of _ "Suc k"]) simp
  next
    case False
    with Suc.prems f show ?thesis
      by (intro exI[of _ 1])
        (auto simp: Let_def split: prod.splits response.splits if_splits)
  qed
qed

lemma tries_exhausted:
  assumes "\<forall>p. \<exists>e p'. func q p = (Raises e, p') \<and> is_service_error e"
    and "swallow_exceptions rl"
    and "tries rl func n q w = (resp, w')"
  shows "resp = No_match \<and> events w' = events w @ tries_trace (error_wait_seconds rl) q (Suc n)"
  using assms(3)
proof (induction n arbitrary: w)
  case 0
  from assms(1) obtain e p' where "func q (provider w) = (Raises e, p')" "is_service_error e"
    by blast
  with 0 assms(2) show ?case by (auto simp: Let_def)
next
  case (Suc n)
  from assms(1) obtain e p' where f: "func q (provider w) = (Raises e, p')" "is_service_error e"
    by blast
  let ?w = "\<lparr>provider = p', events = events w @ [Acquire_slot, Request q, Sleep (error_wait_seconds rl)]\<rparr>"
  have "tries rl func n q ?w = (resp, w')"
    using Suc.prems f by (simp add: Let_def)
  from Suc.IH[OF this] show ?case by simp
qed

lemma tries_unexpected:
  assumes "func q (provider w) = (Raises e, p')" "\<not> is_service_error e"
  shows "tries rl func n q w =
           (Raises e, \<lparr>provider = p', events = events w @ [Acquire_slot, Request q]\<rparr>)"
  using assms by (cases n) (simp_all add: Let_def)


lemmas limiter_defs = rate_limited_def limiter_def always_times_out_def no_network_def offline_def

text \<open>
  C3, as the code has it.  For a query that is not blank and not in the cache,
  \<open>geocode_one\<close> over the rate-limited provider makes between one and four requests
  (the first try and up to \<^verbatim>\<open>max_retries = 3\<close> retries), with a sleep of 5 between
  two requests and nothing else in between but the wait for a slot.  It always
  returns, either a coordinate pair or \<open>(None, None)\<close>; no exception is part of its
  result.  When the provider answers every request with a service error (unavailable,
  timed out), the fourth failure is swallowed and the result is \<open>(None, None)\<close>; when
  the first request raises any other exception, there is no retry and the result is
  \<open>(None, None)\<close>.
\<close>

theorem retry_policy:
  assumes "py_strip a \<noteq> []" and "cache s (py_strip a) = None"
  shows "case geocode_one (rate_limited limiter func) (Some a) s of (r, s1) \<Rightarrow>
     (\<exists>k. 1 \<le> k \<and> k \<le> 4 \<and>
          events (world s1) = events (world s) @ tries_trace 5 (py_strip a) k) \<and>
     ((\<exists>la lo. r = (Some la, Some lo)) \<or> r = (None, None)) \<and>
     ((\<forall>p. \<exists>e p'. func (py_strip a) p = (Raises e, p') \<and> is_service_error e) \<longrightarrow>
        r = (None, None) \<and>
        events (world s1) = events (world s) @ tries_trace 5 (py_strip a) 4) \<and>
     ((\<exists>e p'. func (py_strip a) (provider (world s)) = (Raises e, p') \<and> \<not> is_service_error e) \<longrightarrow>
        r = (None, None) \<and>
        events (world s1) = events (world s) @ tries_trace 5 (py_strip a) 1)"
proof -
  let ?q = "py_strip a"
  obtain resp w where t: "tries limiter func 3 ?q (world s) = (resp, w)"
    by (cases "tries limiter func 3 ?q (world s)")
  have lim: "error_wait_seconds limiter = 5" "swallow_exceptions limiter" "max_retries limiter = 3"
    by (simp_all add: limiter_def)
  have one: "geocode_one (rate_limited limiter func) (Some a) s =
     (fst (handled ?q resp),
      s\<lparr>cache := (cache s)(?q \<mapsto> fst (handled ?q resp)), world := w,
        sent := sent s @ [?q], console := console s @ snd (handled ?q resp)\<rparr>)"
    using assms t by (simp add: geocode_one_miss rate_limited_def lim)
  have res: "(\<exists>la lo. fst (handled ?q resp) = (Some la, Some lo)) \<or> fst (handled ?q resp) = (None, None)"
    by (cases resp) (simp_all add: handled_def)
  from tries_bounded[OF t] obtain k where k: "1 \<le> k" "k \<le> 4"
    "events w = events (world s) @ tries_trace 5 ?q k"
    by (auto simp: lim)
  have ex: "fst (handled ?q resp) = (None, None) \<and>
            events w = events (world s) @ tries_trace 5 ?q 4"
    if "\<forall>p. \<exists>e p'. func ?q p = (Raises e, p') \<and> is_service_error e"
    using tries_exhausted[OF that lim(2) t] by (simp add: lim handled_def numeral_eq_Suc)
  have un: "fst (handled ?q resp) = (None, None) \<and>
            events w = events (world s) @ tries_trace 5 ?q 1"
    if "\<exists>e p'. func ?q (provider (world s)) = (Raises e, p') \<and> \<not> is_service_error e"
  proof -
    from that obtain e p' where f: "func ?q (provider (world s)) = (Raises e, p')"
      and e: "\<not> is_service_error e"
      by blast
    from tries_unexpected[where func = func and q = ?q and w = "world s" and rl = limiter
        and n = 3, OF f e] t show ?thesis
      by (auto simp: handled_def)
  qed
  show ?thesis
    unfolding one using res k ex un by auto
qed

theorem retry_policy_witness:
  "py_strip (py ''1 Main St, Tampa, FL, USA'') \<noteq> [] \<and>
   cache offline (py_strip (py ''1 Main St, Tampa, FL, USA'')) = None \<and>
   fst (geocode_one (rate_limited limiter always_times_out)
          (Some (py ''1 Main St, Tampa, FL, USA'')) offline) = (None, None) \<and>
   events (world (snd (geocode_one (rate_limited limiter always_times_out)
          (Some (py ''1 Main St, Tampa, FL, USA'')) offline))) =
     [Acquire_slot, Request (py ''1 Main St, Tampa, FL, USA''), Sleep 5,
      Acquire_slot, Request (py ''1 Main St, Tampa, FL, USA''), Sleep 5,
      Acquire_slot, Request (py ''1 Main St, Tampa, FL, USA''), Sleep 5,
      Acquire_slot, Request (py ''1 Main St, Tampa, FL, USA'')] \<and>
   fst (geocode_one (rate_limited limiter no_network)
          (Some (py ''1 Main St, Tampa, FL, USA'')) offline) = (None, None) \<and>
   events (world (snd (geocode_one (rate_limited limiter no_network)
          (Some (py ''1 Main St, Tampa, FL, USA'')) offline))) =
     [Acquire_slot, Request (py ''1 Main St, Tampa, FL, USA'')]"
proof -
  let ?a = "py ''1 Main St, Tampa, FL, USA''"
  have q: "py_strip ?a = ?a"
    by (simp add: text_defs)
  have h1: "py_strip ?a \<noteq> []"
    by (simp add: text_defs)
  have h2: "cache offline (py_strip ?a) = None"
    by (simp add: offline_def)
  have t: "\<forall>p. \<exists>e p'. always_times_out (py_strip ?a) p = (Raises e, p') \<and> is_service_error e"
    by (simp add: always_times_out_def)
  have n: "\<exists>e p'. no_network (py_strip ?a) (provider (world offline)) = (Raises e, p') \<and>
                  \<not> is_service_error e"
    by (simp add: no_network_def)
  have e: "events (world offline) = []"
    by (simp add: offline_def)
  from retry_policy [OF h1 h2, of always_times_out] t
  have "fst (geocode_one (rate_limited limiter always_times_out) (Some ?a) offline) = (None, None) \<and>
        events (world (snd (geocode_one (rate_limited limiter always_times_out) (Some ?a) offline))) =
          tries_trace 5 ?a 4"
    by (auto simp: q e split: prod.splits)
  moreover
  from retry_policy [OF h1 h2, of no_network] n
  have "fst (geocode_one (rate_limited limiter no_network) (Some ?a) offline) = (None, None) \<and>
        events (world (snd (geocode_one (rate_limited limiter no_network) (Some ?a) offline))) =
          tries_trace 5 ?a 1"
    by (auto simp: q e split: prod.splits)
  ultimately show ?thesis
    using h1 h2 by (simp add: numeral_eq_Suc)
qed

text \<open>
  The claim's ceiling of three attempts in total fails: against a provider that always
  times out, one query costs four requests.
\<close>

theorem four_requests_on_timeouts:
  "requests (events (world (snd (geocode_one (rate_limited limiter always_times_out)
      (Some (py ''1 Main St, Tampa, FL, USA'')) offline)))) = 4"
  by (simp add: geo_defs limiter_defs text_defs numeral_eq_Suc)

section \<open>Properties of strip\_suite and load\_and\_clean\<close>

lemmas fix_defs = encode_latin1_def decode_utf8_def roundtrip_def py_replace_def replacements_def
  py_split_def fix_encoding_str_def
lemmas suite_defs = ci_match_def ci_prefix_def suite_keywords_def boundary_after_word_def
  boundary_after_dot_def keyword_ahead_def suite_ahead_def sub_trailing_def strip_suite_str_def
lemmas load_defs = EXPECTED_COLS_def header_in_first_row_def labels_of_def body_of_def
  clean_cell_def clean_row_def load_and_clean_def spaced_cell_def spaced_frame_def cell_def

lemma filter_subset_truncate:
  assumes "map tenant_row.truncate df1 = out"
  shows "list_all (\<lambda>r. tenant_row.truncate r \<in> set out) (filter P df1)"
proof -
  have "tenant_row.truncate r \<in> set out" if "r \<in> set df1" for r
    using that assms by (metis image_eqI set_map)
  then show ?thesis by (simp add: list_all_iff)
qed


subsection \<open>The suite pattern\<close>

lemma keyword_letters:
  "k \<in> set suite_keywords \<Longrightarrow> fst k \<noteq> [] \<and> (\<forall>p\<in>set (fst k). 97 \<le> p \<and> p \<le> 122)"
  by (auto simp: suite_keywords_def py_def)

lemma ci_match_letter:
  "97 \<le> p \<Longrightarrow> p \<le> 122 \<Longrightarrow> ci_match p c \<Longrightarrow> c \<noteq> 44 \<and> \<not> py_isspace c"
  by (auto simp: ci_match_def py_isspace_def)

lemma not_word_comma: "\<not> re_word U 44"
  by (simp add: re_word_def py_isalnum_def latin1_isalnum_def)

lemma not_word_dot: "\<not> re_word U 46"
  by (simp add: re_word_def py_isalnum_def latin1_isalnum_def)

lemma not_space_comma: "\<not> py_isspace 44"
  by (simp add: py_isspace_def)

text \<open>The optional period adds nothing: a period is itself a boundary after the keyword.\<close>

lemma keyword_ahead_plain:
  "keyword_ahead U k t \<longleftrightarrow>
     ci_prefix (fst k) t \<and> boundary_after_word U (drop (length (fst k)) t)"
  by (auto simp: keyword_ahead_def Let_def boundary_after_word_def not_word_dot
      split: list.splits)

lemma boundary_append:
  assumes "X = [] \<or> hd X = 44"
  shows "boundary_after_word U (r @ X) = boundary_after_word U r"
  using assms by (cases r; cases X) (auto simp: boundary_after_word_def not_word_comma)

lemma ci_prefix_append:
  assumes "k \<in> set suite_keywords" "X = [] \<or> hd X = 44"
  shows "ci_prefix (fst k) (t @ X) = ci_prefix (fst k) t"
proof (cases "length (fst k) \<le> length t")
  case True
  then show ?thesis by (simp add: ci_prefix_def)
next
  case False
  then have short: "length t < length (fst k)" by simp
  have "\<not> ci_prefix (fst k) (t @ X)"
  proof
    assume a: "ci_prefix (fst k) (t @ X)"
    then have len: "length (fst k) \<le> length (t @ X)"
      and all: "list_all2 ci_match (fst k) (take (length (fst k)) (t @ X))"
      by (simp_all add: ci_prefix_def)
    from short len have X: "X \<noteq> []" by auto
    with assms(2) have hd: "hd X = 44" by simp
    have "ci_match (fst k ! length t) (take (length (fst k)) (t @ X) ! length t)"
      using list_all2_nthD[OF all, of "length t"] short by simp
    moreover have "take (length (fst k)) (t @ X) ! length t = 44"
      using short X hd by (simp add: nth_append hd_conv_nth)
    moreover have "97 \<le> fst k ! length t \<and> fst k ! length t \<le> 122"
      using keyword_letters[OF assms(1)] short by (meson nth_mem)
    ultimately show False
      using ci_match_letter by metis
  qed
  moreover have "\<not> ci_prefix (fst k) t"
    using False by (simp add: ci_prefix_def)
  ultimately show ?thesis by simp
qed

lemma keyword_ahead_append:
  assumes "k \<in> set suite_keywords" "X = [] \<or> hd X = 44"
  shows "keyword_ahead U k (t @ X) = keyword_ahead U k t"
proof (cases "ci_prefix (fst k) t")
  case True
  then have "length (fst k) \<le> length t" by (simp add: ci_prefix_def)
  then show ?thesis
    using True assms by (simp add: keyword_ahead_plain ci_prefix_append boundary_append)
next
  case False
  then show ?thesis
    using assms by (simp add: keyword_ahead_plain ci_prefix_append)
qed

lemma keyword_ahead_comma:
  assumes "k \<in> set suite_keywords" "X = [] \<or> hd X = 44"
  shows "\<not> keyword_ahead U k X"
  using keyword_ahead_append[OF assms, of U "[]"] keyword_letters[OF assms(1)]
  by (simp add: keyword_ahead_plain ci_prefix_def)

lemma dropWhile_append_stop:
  assumes "X = [] \<or> \<not> P (hd X)"
  shows "dropWhile P (p @ X) = dropWhile P p @ X"
  using assms by (cases X) (auto simp: dropWhile_append)

lemma suite_ahead_append:
  assumes "X = [] \<or> hd X = 44"
  shows "suite_ahead U (p @ X) = suite_ahead U p"
proof -
  have d: "dropWhile py_isspace (p @ X) = dropWhile py_isspace p @ X"
    using assms by (intro dropWhile_append_stop) (auto simp: not_space_comma)
  show ?thesis
    using assms by (auto simp: suite_ahead_def d list_ex_iff keyword_ahead_append)
qed

lemma sub_suite_append:
  assumes "X = [] \<or> hd X = 44"
  shows "sub_suite U (p @ X) = sub_suite U p @ sub_suite U X"
proof (induction U p rule: sub_suite.induct)
  case (1 U)
  then show ?case by simp
next
  case (2 U c cs)
  have d: "dropWhile (\<lambda>x. x \<noteq> 44) (cs @ X) = dropWhile (\<lambda>x. x \<noteq> 44) cs @ X"
    using assms by (intro dropWhile_append_stop) auto
  show ?case
  proof (cases "c = 44 \<and> suite_ahead U cs")
    case True
    with 2(1) show ?thesis
      using assms by (simp add: suite_ahead_append d)
  next
    case False
    with 2(2) show ?thesis
      using assms by (auto simp: suite_ahead_append)
  qed
qed

lemma sub_suite_no_comma: "44 \<notin> set s \<Longrightarrow> sub_suite U s = s"
  by (induction s) auto

lemma sub_suite_fragment:
  assumes ws: "list_all py_isspace ws"
    and k: "k \<in> set suite_keywords" and kw: "list_all2 ci_match (fst k) kw"
    and tail: "44 \<notin> set tail" "boundary_after_word U tail"
    and rest: "rest = [] \<or> hd rest = 44"
  shows "sub_suite U (44 # ws @ kw @ tail @ rest) = sub_suite U rest"
proof -
  have len: "length kw = length (fst k)"
    using kw by (simp add: list_all2_lengthD)
  have kw_chars: "c \<noteq> 44 \<and> \<not> py_isspace c" if "c \<in> set kw" for c
  proof -
    from that obtain i where i: "i < length kw" "kw ! i = c"
      by (auto simp: in_set_conv_nth)
    have "ci_match (fst k ! i) (kw ! i)"
      using list_all2_nthD[OF kw, of i] i(1) len by simp
    moreover have "97 \<le> fst k ! i \<and> fst k ! i \<le> 122"
      using keyword_letters[OF k] i(1) len by (metis nth_mem)
    ultimately show ?thesis
      using ci_match_letter i(2) by metis
  qed
  have kw_ne: "kw \<noteq> []"
    using keyword_letters[OF k] len by auto
  have "dropWhile py_isspace (ws @ kw @ tail @ rest) = kw @ tail @ rest"
    using ws kw_ne kw_chars[of "hd kw"]
    by (cases kw) (simp_all add: dropWhile_append list_all_iff)
  moreover have "keyword_ahead U k (kw @ tail @ rest)"
  proof -
    have "boundary_after_word U (tail @ rest)"
      using boundary_append[OF rest, of U tail] tail(2) by simp
    then show ?thesis
      using kw len by (simp add: keyword_ahead_plain ci_prefix_def)
  qed
  ultimately have ahead: "suite_ahead U (ws @ kw @ tail @ rest)"
    using k by (auto simp: suite_ahead_def list_ex_iff)
  have no_comma: "\<forall>x\<in>set (ws @ kw @ tail). x \<noteq> 44"
    using ws kw_chars tail(1) not_space_comma by (auto simp: list_all_iff)
  have "dropWhile (\<lambda>x. x \<noteq> 44) ((ws @ kw @ tail) @ rest) = rest"
    using no_comma rest by (cases rest) (simp_all add: dropWhile_append)
  with ahead show ?thesis by simp
qed

lemma strip_suite_example:
  "strip_suite_str U (py ''123 Main St, Suite 400, Tampa'') = py ''123 Main St, Tampa''"
  by (simp add: fix_defs suite_defs text_defs)

lemma load_spaced_frame: "load_and_clean no_ext_tables spaced_frame = Inr [spaced_row]"
  by (simp add: load_defs spaced_row_def fix_defs suite_defs text_defs)


subsection \<open>Claim C7\<close>

text \<open>
  C7.  Let the address, after \<open>fix_encoding\<close>, hold a fragment that starts with a
  comma, goes on with any whitespace and a keyword (Suite, Ste, Unit, Bldg or
  Building in any mix of cases) that ends as a word (\<open>tail\<close> is empty or starts with
  a character that is not a word character, a period for instance), and runs up to
  the next comma or the end of the text.  Then \<open>strip_suite\<close> returns what its
  remaining steps make of the text before and after the fragment: the fragment itself
  leaves no trace.  A text before the fragment that holds no comma passes the suite
  pattern unchanged.  In particular the specification's example gives
  \<^verbatim>\<open>123 Main St, Tampa\<close>.
\<close>

theorem strip_suite_removes_fragment:
  assumes "fix_encoding_str a = pre @ [44] @ ws @ kw @ tail @ rest"
    and "list_all py_isspace ws"
    and "k \<in> set suite_keywords" and "list_all2 ci_match (fst k) kw"
    and "44 \<notin> set tail" and "boundary_after_word U tail"
    and "rest = [] \<or> hd rest = 44"
  shows "strip_suite U (PyStr a) =
           PyStr (sub_trailing (py_strip (sub_spaces (sub_hash U
                    (sub_suite U pre @ sub_suite U rest))))) \<and>
         (44 \<notin> set pre \<longrightarrow> sub_suite U pre = pre) \<and>
         strip_suite U (PyStr (py ''123 Main St, Suite 400, Tampa'')) =
           PyStr (py ''123 Main St, Tampa'')"
proof -
  have "sub_suite U (pre @ (44 # ws @ kw @ tail @ rest)) =
          sub_suite U pre @ sub_suite U (44 # ws @ kw @ tail @ rest)"
    by (rule sub_suite_append) simp
  also have "sub_suite U (44 # ws @ kw @ tail @ rest) = sub_suite U rest"
    using assms(2-7) by (rule sub_suite_fragment)
  finally have "sub_suite U (fix_encoding_str a) = sub_suite U pre @ sub_suite U rest"
    by (simp add: assms(1))
  then have main: "strip_suite U (PyStr a) =
           PyStr (sub_trailing (py_strip (sub_spaces (sub_hash U
                    (sub_suite U pre @ sub_suite U rest)))))"
    by (simp add: strip_suite_str_def)
  have example: "strip_suite U (PyStr (py ''123 Main St, Suite 400, Tampa'')) =
           PyStr (py ''123 Main St, Tampa'')"
    by (simp add: strip_suite_example)
  from main example show ?thesis
    by (simp add: sub_suite_no_comma)
qed

theorem strip_suite_removes_fragment_witness:
  "fix_encoding_str (py ''1 Main St,  STE. 5, Tampa'') =
     py ''1 Main St'' @ [44] @ py '' '' @ py ''STE'' @ py ''. 5'' @ py '', Tampa'' \<and>
   list_all py_isspace (py '' '') \<and>
   (py ''ste'', True) \<in> set suite_keywords \<and>
   list_all2 ci_match (py ''ste'') (py ''STE'') \<and>
   44 \<notin> set (py ''. 5'') \<and>
   boundary_after_word no_ext_tables (py ''. 5'') \<and>
   hd (py '', Tampa'') = 44 \<and>
   strip_suite no_ext_tables (PyStr (py ''1 Main St,  STE. 5, Tampa'')) =
     PyStr (py ''1 Main St, Tampa'')"
proof -
  have h1: "fix_encoding_str (py ''1 Main St,  STE. 5, Tampa'') =
     py ''1 Main St'' @ [44] @ py '' '' @ py ''STE'' @ py ''. 5'' @ py '', Tampa''"
    by (simp add: fix_defs text_defs)
  have h2: "list_all py_isspace (py '' '')"
    by (simp add: text_defs)
  have h3: "(py ''ste'', True) \<in> set suite_keywords"
    by (simp add: suite_keywords_def)
  have h4: "list_all2 ci_match (fst (py ''ste'', True)) (py ''STE'')"
    by (simp add: ci_match_def text_defs)
  have h5: "44 \<notin> set (py ''. 5'')"
    by (simp add: text_defs)
  have h6: "boundary_after_word no_ext_tables (py ''. 5'')"
    by (simp add: boundary_after_word_def text_defs)
  have h7: "py '', Tampa'' = [] \<or> hd (py '', Tampa'') = 44"
    by (simp add: text_defs)
  have tidy: "sub_trailing (py_strip (sub_spaces (sub_hash no_ext_tables
       (sub_suite no_ext_tables (py ''1 Main St'') @ sub_suite no_ext_tables (py '', Tampa''))))) =
     py ''1 Main St, Tampa''"
    by (simp add: suite_defs text_defs)
  from strip_suite_removes_fragment [OF h1 h2 h3 h4 h5 h6 h7]
  have "strip_suite no_ext_tables (PyStr (py ''1 Main St,  STE. 5, Tampa'')) =
     PyStr (py ''1 Main St, Tampa'')"
    by (simp add: tidy)
  with h1 h2 h3 h4 h5 h6 h7 show ?thesis
    by (simp add: text_defs)
qed

subsection \<open>Claim C9\<close>

text \<open>
  C9, as the code has it.  \<open>load_and_clean\<close> stores in \<open>Address\<close> the cell of the
  input after \<^verbatim>\<open>str\<close>, \<^verbatim>\<open>strip\<close> and \<open>fix_encoding\<close>, and nothing else is done to
  it: the output of \<open>strip_suite\<close> goes to \<open>clean_address\<close> and from there into
  \<open>full_address\<close>, never into \<open>Address\<close>.  Geocoding leaves every field of every
  row as \<open>load_and_clean\<close> returned it, in the frame with coordinates, in the frame
  returned and in the failure file.

  The address is thus not preserved unmodified: surrounding blanks are trimmed, runs
  of whitespace collapsed and mis-decoded text repaired before it is stored
  (\<open>address_trimmed_on_load\<close>).
\<close>

theorem address_only_cleaned_on_load:
  assumes "load_and_clean U df = Inr out"
  shows "length out = length (body_of df) \<and>
         (\<forall>i<length out.
            Address (out ! i) =
              fix_encoding_str (py_strip (py_str
                (cell (labels_of df) (body_of df ! i) (PyStr (py ''Address''))))) \<and>
            clean_address (out ! i) = strip_suite_str U (Address (out ! i)) \<and>
            full_address (out ! i) =
              clean_address (out ! i) @ py '', '' @ City (out ! i) @ py '', '' @
              State (out ! i) @ py '', USA'') \<and>
         (case located geocode out seed w of (df1, s) \<Rightarrow> map tenant_row.truncate df1 = out) \<and>
         (let g = geocode_addresses geocode out seed w
          in list_all (\<lambda>r. tenant_row.truncate r \<in> set out) (returned g) \<and>
             (case failures_file g of
                None \<Rightarrow> True
              | Some fs \<Rightarrow> list_all (\<lambda>r. tenant_row.truncate r \<in> set out) fs))"
proof -
  have out: "out = map (clean_row U (labels_of df)) (body_of df)"
    using assms by (auto simp: load_and_clean_def Let_def split: if_splits)
  have rows: "\<forall>i<length out.
            Address (out ! i) =
              fix_encoding_str (py_strip (py_str
                (cell (labels_of df) (body_of df ! i) (PyStr (py ''Address''))))) \<and>
            clean_address (out ! i) = strip_suite_str U (Address (out ! i)) \<and>
            full_address (out ! i) =
              clean_address (out ! i) @ py '', '' @ City (out ! i) @ py '', '' @
              State (out ! i) @ py '', USA''"
    by (simp add: out clean_row_def clean_cell_def Let_def)
  obtain df1 s where l: "located geocode out seed w = (df1, s)"
    by (cases "located geocode out seed w")
  have t: "map tenant_row.truncate df1 = out"
    using located_rows[OF l] by simp
  have g: "let g = geocode_addresses geocode out seed w
          in list_all (\<lambda>r. tenant_row.truncate r \<in> set out) (returned g) \<and>
             (case failures_file g of
                None \<Rightarrow> True
              | Some fs \<Rightarrow> list_all (\<lambda>r. tenant_row.truncate r \<in> set out) fs)"
    using filter_subset_truncate[OF t]
    by (simp add: geocode_addresses_def l Let_def)
  have len: "length out = length (body_of df)"
    by (simp add: out)
  have loc: "case located geocode out seed w of (df1, s) \<Rightarrow> map tenant_row.truncate df1 = out"
    using t by (simp add: l)
  from len rows loc g show ?thesis
    by (intro conjI)
qed

theorem address_only_cleaned_on_load_witness:
  "load_and_clean no_ext_tables spaced_frame = Inr [spaced_row] \<and>
   Address spaced_row = fix_encoding_str (py_strip spaced_cell) \<and>
   Address spaced_row = py ''1 Main St, Suite 5'' \<and>
   clean_address spaced_row = py ''1 Main St'' \<and>
   map Address (returned (geocode_addresses stub_found [spaced_row] None 0)) =
     [py ''1 Main St, Suite 5'']"
proof -
  have cell: "cell (labels_of spaced_frame) (body_of spaced_frame ! 0) (PyStr (py ''Address'')) =
              PyStr spaced_cell"
    by (simp add: load_defs text_defs)
  have row: "Address spaced_row = py ''1 Main St, Suite 5'' \<and>
             clean_address spaced_row = py ''1 Main St''"
    by (simp add: spaced_row_def)
  have ret: "map Address (returned (geocode_addresses stub_found [spaced_row] None 0)) =
             [py ''1 Main St, Suite 5'']"
    by (simp add: geo_defs example_defs spaced_row_def text_defs)
  from address_only_cleaned_on_load [OF load_spaced_frame, of stub_found None 0]
  have "Address ([spaced_row] ! 0) = fix_encoding_str (py_strip (py_str
          (cell (labels_of spaced_frame) (body_of spaced_frame ! 0) (PyStr (py ''Address'')))))"
    by simp
  then have "Address spaced_row = fix_encoding_str (py_strip spaced_cell)"
    by (simp add: cell)
  with load_spaced_frame row ret show ?thesis
    by simp
qed

text \<open>
  The claim as stated fails: the address cell of \<open>spaced_frame\<close> is not the address
  that the pipeline stores and shows.
\<close>

theorem address_trimmed_on_load:
  "cell (labels_of spaced_frame) (body_of spaced_frame ! 0) (PyStr (py ''Address'')) =
     PyStr (py '' 1 Main  St, Suite 5 '') \<and>
   load_and_clean no_ext_tables spaced_frame = Inr [spaced_row] \<and>
   Address spaced_row = py ''1 Main St, Suite 5'' \<and>
   Address spaced_row \<noteq> py '' 1 Main  St, Suite 5 ''"
  by (simp add: load_spaced_frame) (simp add: load_defs spaced_row_def text_defs)

end
